theory Spec2Isabelle
  imports Main
begin

section \<open>Data model of the process supervisor (launchpad.py)\<close>

text \<open>
  \<^verbatim>\<open>class ProcessStatus(Enum)\<close>: the four lifecycle states of a handle.
\<close>

datatype ProcessStatus = STOPPED | STARTING | RUNNING | FAILED

text \<open>
  Python exceptions that the modelled code can meet. \<^verbatim>\<open>except FileNotFoundError\<close> matches
  the first constructor only; \<^verbatim>\<open>except Exception\<close> matches every constructor.
\<close>

datatype exn = FileNotFoundError string | PermissionError string | OSError string | Exception string

type_synonym pid = nat

text \<open>
  What \<^verbatim>\<open>Proc.last_error\<close> holds: \<^verbatim>\<open>f"Exited with code {returncode}"\<close> written by the
  monitor, or \<^verbatim>\<open>str(e)\<close> written by \<^verbatim>\<open>_spawn\<close>.
\<close>

datatype error_text = Exited_with_code int | Launch_error string

text \<open>
  \<^verbatim>\<open>class Proc\<close>. The field \<open>p\<close> is the \<^verbatim>\<open>subprocess.Popen\<close> object, identified by
  the pid of the OS process it refers to; \<^verbatim>\<open>None\<close> until a launch succeeded. The
  environment mapping \<^verbatim>\<open>env\<close> plays no part in any decision and is left out.
\<close>

record Proc =
  name :: string
  args :: "string list"
  cwd :: string
  p :: "pid option"
  status :: ProcessStatus
  auto_restart :: bool
  start_time :: "nat option"
  restart_count :: nat
  last_error :: "error_text option"

text \<open>\<^verbatim>\<open>Proc.__init__(name, args, cwd, env=None, auto_restart=False)\<close>\<close>

definition Proc_init :: "string \<Rightarrow> string list \<Rightarrow> string \<Rightarrow> bool \<Rightarrow> Proc" where
  "Proc_init n a c ar =
     \<lparr>name = n, args = a, cwd = c, p = None, status = STOPPED, auto_restart = ar,
      start_time = None, restart_count = 0, last_error = None\<rparr>"

text \<open>
  An OS process started by \<^verbatim>\<open>Popen\<close>. \<open>exit_at\<close> is the time (milliseconds of the
  virtual clock) and the exit code at which the process ends, once that is determined;
  \<open>term_delay\<close> is how long the program takes to exit after a graceful stop signal
  (\<open>None\<close>: it ignores the signal).
\<close>

record osproc =
  exit_at :: "(nat \<times> int) option"
  term_delay :: "nat option"

datatype signal = SIGTERM | SIGKILL

text \<open>Severity passed to \<^verbatim>\<open>notify_callback\<close>.\<close>

datatype severity = Info | Warning | Error | Success

text \<open>
  The lines handed to \<^verbatim>\<open>ui_log\<close> by \<^verbatim>\<open>StackController.log\<close>, one constructor per
  format string of the source (the timestamp prefix is left out).
\<close>

datatype log_line =
    Already_running string
  | Starting string
  | Not_found string string
  | Crashed string
  | Auto_restarting string nat
  | Stopping string
  | Stopped string
  | Port_prompt nat string "(pid \<times> string \<times> string) list"
  | Terminated_pid pid string nat
  | Failed_to_terminate pid exn
  | Port_in_use nat string
  | Port_freed nat
  | Running_migrations
  | Redis_available string nat
  | Redis_no_docker
  | Redis_launching
  | Redis_up
  | Redis_unreachable
  | Beat_schedule_warning exn
  | Frontend_managed_running
  | Frontend_port_in_use nat
  | Port_still_in_use
  | Conflict_not_resolved
  | Could_not_identify
  | Stopping_all
  | Error_stopping string exn
  | Frontend_port_still_open nat
  | Daphne_port_still_open nat
  | All_stopped

text \<open>The messages handed to \<^verbatim>\<open>notify_callback\<close>.\<close>

datatype notice =
    Stopped_unexpectedly string
  | Failed_to_start string
  | Started_successfully string
  | Port_in_use_notice nat string
  | Frontend_port_notice nat

text \<open>
  What a pending \<^verbatim>\<open>threading.Timer\<close> will call. \<open>Restart_loop_key\<close> is the closure
  \<^verbatim>\<open>lambda: self._restart_proc(key)\<close> created inside the monitor loop: it reads the loop
  variable \<^verbatim>\<open>key\<close> of \<^verbatim>\<open>monitor\<close> when it runs, not when it is created.
\<close>

datatype timer_action =
    Restart_loop_key
  | Start_daphne
  | Start_celery_beat
  | Start_celery_worker
  | Start_frontend

text \<open>
  The state of the controller and of the host it runs on.
  \<^item> \<open>procs\<close>: \<^verbatim>\<open>self.procs\<close>, a dict in insertion order;
  \<^item> \<open>os_procs\<close>: the OS processes launched so far, indexed by pid;
  \<^item> \<open>clock\<close>: virtual time in milliseconds, advanced by \<^verbatim>\<open>time.sleep\<close>;
  \<^item> \<open>ui_log\<close>: the lines given to the log sink, oldest first;
  \<^item> \<open>signals\<close>: stop and kill signals sent to processes the controller launched,
    oldest first;
  \<^item> \<open>foreign_signals\<close>: stop and kill signals sent to other processes of the host
    by the port-conflict flow, oldest first;
  \<^item> \<open>timers\<close>: pending timers with their firing time, earliest first;
  \<^item> \<open>monitor_key\<close>: the loop variable \<^verbatim>\<open>key\<close> of the monitor closure;
  \<^item> \<open>monitor_alive\<close>: whether the monitoring thread is still running;
  \<^item> \<open>stop_monitoring\<close>: \<^verbatim>\<open>self._stop_monitoring\<close>;
  \<^item> \<open>removed_files\<close>: files deleted by \<^verbatim>\<open>os.remove\<close>.
\<close>

record world =
  procs :: "(string \<times> Proc) list"
  os_procs :: "osproc list"
  clock :: nat
  ui_log :: "log_line list"
  signals :: "(pid \<times> signal) list"
  foreign_signals :: "(pid \<times> signal) list"
  timers :: "(nat \<times> timer_action) list"
  monitor_key :: "string option"
  monitor_alive :: bool
  stop_monitoring :: bool
  removed_files :: "string list"

text \<open>The result of \<^verbatim>\<open>subprocess.Popen(...)\<close>: a new OS process, or an exception.\<close>

datatype launch = Launched "(nat \<times> int) option" "nat option" | Launch_raises exn

text \<open>
  How one foreign process (one that listens on a wanted port) reacts when the conflict
  flow acts on it: whether sending a signal raises, and whether it is gone after the
  wait that follows the graceful signal.
\<close>

record foreign =
  terminate_raises :: "exn option"
  gone_after_wait :: bool
  kill_raises :: "exn option"

text \<open>
  The fields of \<^verbatim>\<open>Paths\<close> that the controller reads. The derived properties
  (\<^verbatim>\<open>PYTHON_EXE\<close>, \<^verbatim>\<open>CELERY_EXE\<close>, \<^verbatim>\<open>DAPHNE_EXE\<close>,
  \<^verbatim>\<open>CELERY_BEAT_SCHEDULE_PATH\<close> and the path of \<^verbatim>\<open>manage.py\<close>) are joined by the
  platform's \<^verbatim>\<open>os.path.join\<close> and are taken as given; \<^verbatim>\<open>DOCKER_CPU_LIMIT\<close> is the
  text \<^verbatim>\<open>str\<close> gives for the configured number.
\<close>

record cfg =
  PROJECT_ROOT :: string
  FRONTEND_DIR :: string
  NPM_EXE :: string
  DOCKER_EXE :: string
  PYTHON_EXE :: string
  CELERY_EXE :: string
  DAPHNE_EXE :: string
  MANAGE_PY :: string
  CELERY_BEAT_SCHEDULE_PATH :: string
  DJANGO_ASGI_APP :: string
  DAPHNE_HOST :: string
  DAPHNE_PORT :: nat
  FRONTEND_HOST :: string
  FRONTEND_PORT :: nat
  REDIS_HOST :: string
  REDIS_PORT :: nat
  REDIS_DOCKER_NAME :: string
  CELERY_QUEUE :: string
  CELERY_POOL :: string
  CELERY_CONCURRENCY :: nat
  MIGRATION_POLICY :: string
  DOCKER_MEMORY_LIMIT :: string
  DOCKER_CPU_LIMIT :: string

text \<open>
  Everything the controller receives from outside: the callbacks given to its
  constructor and the behaviour of the host. A callback returns \<open>Some e\<close> when it raises
  \<open>e\<close>; an absent callback is \<open>None\<close>.
\<close>

record sys =
  popen :: "string list \<Rightarrow> string \<Rightarrow> world \<Rightarrow> launch"
  status_callback :: "(string \<Rightarrow> ProcessStatus \<Rightarrow> world \<Rightarrow> exn option) option"
  notify_callback :: "(notice \<Rightarrow> severity \<Rightarrow> world \<Rightarrow> exn option) option"
  tcp_connect :: "string \<Rightarrow> nat \<Rightarrow> world \<Rightarrow> bool"
  net_listeners :: "nat \<Rightarrow> world \<Rightarrow> (pid \<times> string \<times> string) list"
  tk_root :: "world \<Rightarrow> bool"
  askyesno :: "world \<Rightarrow> bool option"
  HAS_PSUTIL :: bool
  foreign_proc :: "pid \<Rightarrow> world \<Rightarrow> foreign"
  path_exists :: "string \<Rightarrow> world \<Rightarrow> bool"
  remove_raises :: "string \<Rightarrow> world \<Rightarrow> exn option"

type_synonym comp = "world \<Rightarrow> exn option \<times> world"

section \<open>Helpers: dictionary, clock, log, callbacks\<close>

text \<open>\<^verbatim>\<open>d[k] = v\<close> on an insertion-ordered dict: an existing key keeps its place.\<close>

fun dict_set :: "(string \<times> 'v) list \<Rightarrow> string \<Rightarrow> 'v \<Rightarrow> (string \<times> 'v) list" where
  "dict_set [] k v = [(k, v)]"
| "dict_set ((k', v') # d) k v =
     (if k' = k then (k, v) # d else (k', v') # dict_set d k v)"

text \<open>\<^verbatim>\<open>d.pop(k, None)\<close>\<close>

fun dict_pop :: "(string \<times> 'v) list \<Rightarrow> string \<Rightarrow> (string \<times> 'v) list" where
  "dict_pop [] k = []"
| "dict_pop ((k', v') # d) k = (if k' = k then d else (k', v') # dict_pop d k)"

definition sleep :: "nat \<Rightarrow> world \<Rightarrow> world" where
  "sleep ms w = w\<lparr>clock := clock w + ms\<rparr>"

definition log :: "log_line \<Rightarrow> world \<Rightarrow> world" where
  "log l w = w\<lparr>ui_log := ui_log w @ [l]\<rparr>"

definition then_do :: "comp \<Rightarrow> comp \<Rightarrow> comp" where
  "then_do f g w = (case f w of (None, w') \<Rightarrow> g w' | (Some e, w') \<Rightarrow> (Some e, w'))"

definition pure_do :: "(world \<Rightarrow> world) \<Rightarrow> comp" where
  "pure_do f w = (None, f w)"

text \<open>\<^verbatim>\<open>if self.status_callback: self.status_callback(key, status)\<close>\<close>

definition call_status :: "sys \<Rightarrow> string \<Rightarrow> ProcessStatus \<Rightarrow> comp" where
  "call_status E key st w =
     (case status_callback E of None \<Rightarrow> (None, w) | Some f \<Rightarrow> (f key st w, w))"

text \<open>\<^verbatim>\<open>if self.notify_callback: self.notify_callback(message, severity)\<close>\<close>

definition call_notify :: "sys \<Rightarrow> notice \<Rightarrow> severity \<Rightarrow> comp" where
  "call_notify E n sv w =
     (case notify_callback E of None \<Rightarrow> (None, w) | Some f \<Rightarrow> (f n sv w, w))"

section \<open>OS processes\<close>

text \<open>
  \<^verbatim>\<open>Popen.poll()\<close>: the exit code once the process has ended, \<^verbatim>\<open>None\<close> while it runs.
\<close>

definition poll :: "world \<Rightarrow> pid \<Rightarrow> int option" where
  "poll w i =
     (if i < length (os_procs w) then
        (case exit_at (os_procs w ! i) of
           None \<Rightarrow> None
         | Some (t, c) \<Rightarrow> if t \<le> clock w then Some c else None)
      else None)"

text \<open>A signal that ends process \<open>i\<close> at time \<open>t\<close> with code \<open>c\<close>, unless it ends earlier.\<close>

definition end_by :: "pid \<Rightarrow> nat \<Rightarrow> int \<Rightarrow> world \<Rightarrow> world" where
  "end_by i t c w =
     (if i < length (os_procs w) then
        (case exit_at (os_procs w ! i) of
           None \<Rightarrow> w\<lparr>os_procs := (os_procs w)[i := (os_procs w ! i)\<lparr>exit_at := Some (t, c)\<rparr>]\<rparr>
         | Some (t', c') \<Rightarrow>
             if t' \<le> t then w
             else w\<lparr>os_procs := (os_procs w)[i := (os_procs w ! i)\<lparr>exit_at := Some (t, c)\<rparr>]\<rparr>)
      else w)"

text \<open>
  \<^verbatim>\<open>Popen.terminate()\<close>: nothing is sent to a process that has already ended; otherwise
  the graceful signal is sent and the program exits after its reaction time, if it reacts.
\<close>

definition popen_terminate :: "pid \<Rightarrow> world \<Rightarrow> world" where
  "popen_terminate i w =
     (if poll w i \<noteq> None then w
      else
        let w1 = w\<lparr>signals := signals w @ [(i, SIGTERM)]\<rparr> in
        if i < length (os_procs w) then
          (case term_delay (os_procs w ! i) of
             None \<Rightarrow> w1
           | Some d \<Rightarrow> end_by i (clock w + d) (- 15) w1)
        else w1)"

text \<open>\<^verbatim>\<open>Popen.kill()\<close>: the forced kill ends the process at once.\<close>

definition popen_kill :: "pid \<Rightarrow> world \<Rightarrow> world" where
  "popen_kill i w =
     (if poll w i \<noteq> None then w
      else end_by i (clock w) (- 9) (w\<lparr>signals := signals w @ [(i, SIGKILL)]\<rparr>))"

section \<open>\<^verbatim>\<open>StackController._spawn\<close>\<close>

text \<open>
  \<^verbatim>\<open>key in self.procs and self.procs[key].p and self.procs[key].p.poll() is None\<close>
\<close>

definition live_tracked :: "world \<Rightarrow> string \<Rightarrow> bool" where
  "live_tracked w key =
     (case map_of (procs w) key of
        None \<Rightarrow> False
      | Some pr \<Rightarrow> (case p pr of None \<Rightarrow> False | Some i \<Rightarrow> poll w i = None))"

text \<open>
  The part of \<^verbatim>\<open>_spawn\<close> after a successful \<^verbatim>\<open>Popen\<close>: the start time is stamped, the
  output pump thread is started (it only copies the process output to the log sink and is
  not modelled), the handle is committed to the table, and the callbacks are called.
\<close>

definition spawn_launched ::
  "sys \<Rightarrow> string \<Rightarrow> Proc \<Rightarrow> (nat \<times> int) option \<Rightarrow> nat option \<Rightarrow> world \<Rightarrow> exn option \<times> Proc \<times> world" where
  "spawn_launched E key proc life td w =
     (let i = length (os_procs w);
          ends = (case life of None \<Rightarrow> None | Some (d, c) \<Rightarrow> Some (clock w + d, c));
          w1 = w\<lparr>os_procs := os_procs w @ [\<lparr>exit_at = ends, term_delay = td\<rparr>]\<rparr>;
          proc1 = proc\<lparr>start_time := Some (clock w)\<rparr>;
          proc2 = proc1\<lparr>p := Some i, status := RUNNING\<rparr>;
          w2 = w1\<lparr>procs := dict_set (procs w1) key proc2\<rparr>
      in case call_status E key RUNNING w2 of
           (Some e, w3) \<Rightarrow> (Some e, proc2, w3)
         | (None, w3) \<Rightarrow>
             (case call_notify E (Started_successfully (name proc2)) Success w3 of
                (r, w4) \<Rightarrow> (r, proc2, w4)))"

text \<open>The \<^verbatim>\<open>except FileNotFoundError as e\<close> handler of \<^verbatim>\<open>_spawn\<close>.\<close>

definition spawn_not_found ::
  "sys \<Rightarrow> string \<Rightarrow> Proc \<Rightarrow> string \<Rightarrow> world \<Rightarrow> exn option \<times> Proc \<times> world" where
  "spawn_not_found E key proc m w =
     (let w1 = log (Not_found (name proc) m) w;
          proc1 = proc\<lparr>status := FAILED, last_error := Some (Launch_error m)\<rparr>
      in case call_status E key FAILED w1 of
           (Some e, w2) \<Rightarrow> (Some e, proc1, w2)
         | (None, w2) \<Rightarrow>
             (case call_notify E (Failed_to_start (name proc1)) Error w2 of
                (r, w3) \<Rightarrow> (r, proc1, w3)))"

text \<open>
  \<^verbatim>\<open>_spawn(key, proc)\<close>. The result is the exception that left the call (if any), the
  handle object \<^verbatim>\<open>proc\<close> as the call left it, and the new state.
\<close>

definition spawn :: "sys \<Rightarrow> string \<Rightarrow> Proc \<Rightarrow> world \<Rightarrow> exn option \<times> Proc \<times> world" where
  "spawn E key proc w =
     (if live_tracked w key then (None, proc, log (Already_running (name proc)) w)
      else
        let proc1 = proc\<lparr>status := STARTING\<rparr> in
        case call_status E key STARTING w of
          (Some e, w1) \<Rightarrow> (Some e, proc1, w1)
        | (None, w1) \<Rightarrow>
            (let w2 = log (Starting (name proc1)) w1 in
             case popen E (args proc1) (cwd proc1) w2 of
               Launched life td \<Rightarrow> spawn_launched E key proc1 life td w2
             | Launch_raises (FileNotFoundError m) \<Rightarrow> spawn_not_found E key proc1 m w2
             | Launch_raises e \<Rightarrow> (Some e, proc1, w2)))"

definition spawn_c :: "sys \<Rightarrow> string \<Rightarrow> Proc \<Rightarrow> comp" where
  "spawn_c E key proc w = (case spawn E key proc w of (r, _, w') \<Rightarrow> (r, w'))"

section \<open>\<^verbatim>\<open>StackController._terminate\<close>\<close>

text \<open>
  \<^verbatim>\<open>for _ in range(20): if proc.p.poll() is not None: break; time.sleep(0.2)\<close>
\<close>

fun poll_wait :: "nat \<Rightarrow> pid \<Rightarrow> world \<Rightarrow> world" where
  "poll_wait 0 i w = w"
| "poll_wait (Suc n) i w = (if poll w i \<noteq> None then w else poll_wait n i (sleep 200 w))"

text \<open>The body of \<^verbatim>\<open>if proc.p.poll() is None:\<close> in \<^verbatim>\<open>_terminate\<close>.\<close>

definition stop_process :: "Proc \<Rightarrow> pid \<Rightarrow> world \<Rightarrow> world" where
  "stop_process proc i w =
     (let w1 = log (Stopping (name proc)) w;
          w2 = popen_terminate i w1;
          w3 = poll_wait 20 i w2;
          w4 = (if poll w3 i = None then popen_kill i w3 else w3)
      in log (Stopped (name proc)) w4)"

text \<open>
  \<^verbatim>\<open>_terminate(key)\<close>. The result is the exception that left the call (if any), the handle
  object the call worked on (if it found one) as the call left it, and the new state.
\<close>

definition terminate :: "sys \<Rightarrow> string \<Rightarrow> world \<Rightarrow> exn option \<times> Proc option \<times> world" where
  "terminate E key w =
     (case map_of (procs w) key of
        None \<Rightarrow> (None, None, w)
      | Some proc \<Rightarrow>
          (case p proc of
             None \<Rightarrow> (None, Some proc, w)
           | Some i \<Rightarrow>
               (let w1 = (if poll w i = None then stop_process proc i w else w);
                    proc1 = proc\<lparr>status := STOPPED\<rparr>;
                    w2 = w1\<lparr>procs := dict_set (procs w1) key proc1\<rparr>
                in case call_status E key STOPPED w2 of
                     (Some e, w3) \<Rightarrow> (Some e, Some proc1, w3)
                   | (None, w3) \<Rightarrow>
                       (None, Some proc1, w3\<lparr>procs := dict_pop (procs w3) key\<rparr>))))"

definition terminate_c :: "sys \<Rightarrow> string \<Rightarrow> comp" where
  "terminate_c E key w = (case terminate E key w of (r, _, w') \<Rightarrow> (r, w'))"

section \<open>The health monitor\<close>

text \<open>
  \<^verbatim>\<open>threading.Timer(delay, action).start()\<close>: the timer is queued behind every pending
  timer that fires no later.
\<close>

fun add_timer :: "nat \<times> timer_action \<Rightarrow> (nat \<times> timer_action) list \<Rightarrow> (nat \<times> timer_action) list" where
  "add_timer x [] = [x]"
| "add_timer x (y # ys) = (if fst x < fst y then x # y # ys else y # add_timer x ys)"

text \<open>
  The body of \<^verbatim>\<open>if proc.p and proc.p.poll() is not None and proc.status == RUNNING:\<close>
  in the monitor loop, for a process that ended with code \<open>c\<close>. The handle object is the one
  stored in the table, so each assignment to it is an update of the table entry.
\<close>

definition monitor_crashed :: "sys \<Rightarrow> string \<Rightarrow> Proc \<Rightarrow> int \<Rightarrow> world \<Rightarrow> exn option \<times> Proc \<times> world" where
  "monitor_crashed E key proc c w =
     (let proc1 = proc\<lparr>status := FAILED, last_error := Some (Exited_with_code c)\<rparr>;
          w1 = log (Crashed (name proc1)) (w\<lparr>procs := dict_set (procs w) key proc1\<rparr>)
      in case call_notify E (Stopped_unexpectedly (name proc1)) Error w1 of
           (Some e, w2) \<Rightarrow> (Some e, proc1, w2)
         | (None, w2) \<Rightarrow>
             if auto_restart proc1 \<and> restart_count proc1 < 3 then
               (let proc2 = proc1\<lparr>restart_count := restart_count proc1 + 1\<rparr>;
                    w3 = log (Auto_restarting (name proc2) (restart_count proc2))
                           (w2\<lparr>procs := dict_set (procs w2) key proc2\<rparr>);
                    w4 = w3\<lparr>timers := add_timer (clock w3 + 2000, Restart_loop_key) (timers w3)\<rparr>
                in (None, proc2, w4))
             else (None, proc1, w2))"

text \<open>One pass of the \<^verbatim>\<open>for key, proc in list(self.procs.items())\<close> body.\<close>

definition monitor_check :: "sys \<Rightarrow> string \<Rightarrow> Proc \<Rightarrow> comp" where
  "monitor_check E key proc w =
     (let w0 = w\<lparr>monitor_key := Some key\<rparr> in
      case (case p proc of None \<Rightarrow> None | Some i \<Rightarrow> poll w0 i) of
        Some c \<Rightarrow>
          if status proc = RUNNING then
            (case monitor_crashed E key proc c w0 of
               (Some e, proc', w1) \<Rightarrow> (Some e, w1)
             | (None, proc', w1) \<Rightarrow> call_status E key (status proc') w1)
          else call_status E key (status proc) w0
      | None \<Rightarrow> call_status E key (status proc) w0)"

text \<open>
  The \<^verbatim>\<open>for\<close> loop over the snapshot of the table. There is no \<^verbatim>\<open>try\<close> in the loop:
  an exception leaves it at once.
\<close>

fun monitor_loop :: "sys \<Rightarrow> (string \<times> Proc) list \<Rightarrow> comp" where
  "monitor_loop E [] w = (None, w)"
| "monitor_loop E ((key, proc) # rest) w =
     (case monitor_check E key proc w of
        (Some e, w') \<Rightarrow> (Some e, w')
      | (None, w') \<Rightarrow> monitor_loop E rest w')"

text \<open>
  One turn of \<^verbatim>\<open>while not self._stop_monitoring: time.sleep(2); with self.lock: ...\<close>.
  An exception that leaves the loop ends the monitoring thread.
\<close>

definition monitor_tick :: "sys \<Rightarrow> world \<Rightarrow> world" where
  "monitor_tick E w =
     (if \<not> monitor_alive w then w
      else if stop_monitoring w then w\<lparr>monitor_alive := False\<rparr>
      else
        let w1 = sleep 2000 w in
        case monitor_loop E (procs w1) w1 of
          (None, w2) \<Rightarrow> w2
        | (Some e, w2) \<Rightarrow> w2\<lparr>monitor_alive := False\<rparr>)"

section \<open>Port conflicts\<close>

text \<open>\<^verbatim>\<open>_tcp_open(host, port, timeout)\<close>: whether a TCP connection can be made.\<close>

definition tcp_open :: "sys \<Rightarrow> string \<Rightarrow> nat \<Rightarrow> world \<Rightarrow> bool" where
  "tcp_open E host port w = tcp_connect E host port w"

text \<open>The de-duplication loop at the end of \<^verbatim>\<open>_find_pids_on_port\<close>.\<close>

fun uniq_pids :: "pid list \<Rightarrow> (pid \<times> string \<times> string) list \<Rightarrow> (pid \<times> string \<times> string) list" where
  "uniq_pids seen [] = []"
| "uniq_pids seen ((i, n, c) # rs) =
     (if i \<in> set seen then uniq_pids seen rs else (i, n, c) # uniq_pids (i # seen) rs)"

text \<open>
  \<^verbatim>\<open>_find_pids_on_port(port)\<close>: the listeners the platform reports (through psutil or
  lsof; nothing when neither works), without duplicates.
\<close>

definition find_pids_on_port :: "sys \<Rightarrow> nat \<Rightarrow> world \<Rightarrow> (pid \<times> string \<times> string) list" where
  "find_pids_on_port E port w = uniq_pids [] (net_listeners E port w)"

definition send_foreign :: "pid \<Rightarrow> signal \<Rightarrow> world \<Rightarrow> world" where
  "send_foreign i s w = w\<lparr>foreign_signals := foreign_signals w @ [(i, s)]\<rparr>"

text \<open>
  The \<^verbatim>\<open>try\<close> block of the kill loop of \<^verbatim>\<open>_prompt_kill_pids\<close> for one pid. The result
  is the exception that reaches the outer \<^verbatim>\<open>except Exception as e\<close>, if any.
\<close>

definition kill_one :: "sys \<Rightarrow> pid \<Rightarrow> world \<Rightarrow> exn option \<times> world" where
  "kill_one E i w =
     (let f = foreign_proc E i w in
      if HAS_PSUTIL E then
        (case terminate_raises f of
           Some e \<Rightarrow> (Some e, w)
         | None \<Rightarrow>
             (let w1 = send_foreign i SIGTERM w in
              if gone_after_wait f then (None, w1)
              else (case kill_raises f of
                      Some e \<Rightarrow> (Some e, w1)
                    | None \<Rightarrow> (None, send_foreign i SIGKILL w1))))
      else
        (case terminate_raises f of
           Some e \<Rightarrow> (Some e, w)
         | None \<Rightarrow>
             (let w1 = sleep 1000 (send_foreign i SIGTERM w) in
              if gone_after_wait f then (None, w1)
              else (case kill_raises f of
                      Some e \<Rightarrow> (None, w1)
                    | None \<Rightarrow> (None, send_foreign i SIGKILL w1)))))"

text \<open>
  \<^verbatim>\<open>for pid, name, cmd in pids:\<close> of \<^verbatim>\<open>_prompt_kill_pids\<close>, with the running value of
  \<^verbatim>\<open>killed_any\<close>.
\<close>

fun kill_loop :: "sys \<Rightarrow> nat \<Rightarrow> (pid \<times> string \<times> string) list \<Rightarrow> bool \<Rightarrow> world \<Rightarrow> bool \<times> world" where
  "kill_loop E port [] killed_any w = (killed_any, w)"
| "kill_loop E port ((i, n, c) # rest) killed_any w =
     (case kill_one E i w of
        (None, w1) \<Rightarrow> kill_loop E port rest True (log (Terminated_pid i n port) w1)
      | (Some e, w1) \<Rightarrow> kill_loop E port rest killed_any (log (Failed_to_terminate i e) w1))"

text \<open>
  The answer \<^verbatim>\<open>_prompt_kill_pids\<close> works with: the dialog's answer when a Tk root exists
  (\<^verbatim>\<open>False\<close> when the dialog raises), and \<^verbatim>\<open>False\<close> after logging the message when
  there is none.
\<close>

definition prompt_answer :: "sys \<Rightarrow> nat \<Rightarrow> (pid \<times> string \<times> string) list \<Rightarrow> string \<Rightarrow> world \<Rightarrow> bool \<times> world" where
  "prompt_answer E port pids service_name w =
     (if tk_root E w then
        (case askyesno E w of None \<Rightarrow> (False, w) | Some a \<Rightarrow> (a, w))
      else (False, log (Port_prompt port service_name pids) w))"

text \<open>\<^verbatim>\<open>_prompt_kill_pids(port, pids, service_name)\<close>\<close>

definition prompt_kill_pids :: "sys \<Rightarrow> nat \<Rightarrow> (pid \<times> string \<times> string) list \<Rightarrow> string \<Rightarrow> world \<Rightarrow> bool \<times> world" where
  "prompt_kill_pids E port pids service_name w =
     (if pids = [] then (False, w)
      else
        case prompt_answer E port pids service_name w of
          (False, w1) \<Rightarrow> (False, w1)
        | (True, w1) \<Rightarrow> kill_loop E port pids False w1)"

text \<open>\<^verbatim>\<open>check_port_conflict(port, service_name)\<close>\<close>

definition check_port_conflict :: "sys \<Rightarrow> nat \<Rightarrow> string \<Rightarrow> world \<Rightarrow> exn option \<times> bool \<times> world" where
  "check_port_conflict E port service_name w =
     (if tcp_open E ''127.0.0.1'' port w then
        (let w1 = log (Port_in_use port service_name) w in
         case call_notify E (Port_in_use_notice port service_name) Warning w1 of
           (Some e, w2) \<Rightarrow> (Some e, False, w2)
         | (None, w2) \<Rightarrow>
             (let pids = find_pids_on_port E port w2 in
              if pids \<noteq> [] then
                (case prompt_kill_pids E port pids service_name w2 of
                   (_, w3) \<Rightarrow>
                     if tcp_open E ''127.0.0.1'' port w3 then (None, True, w3)
                     else (None, False, log (Port_freed port) w3))
              else (None, True, w2)))
      else (None, False, w))"

section \<open>Starting the services\<close>

text \<open>\<^verbatim>\<open>str(n)\<close> for a non-negative integer.\<close>

fun str_nat :: "nat \<Rightarrow> string" where
  "str_nat n =
     (if n < 10 then [char_of (48 + n)]
      else str_nat (n div 10) @ [char_of (48 + n mod 10)])"

declare str_nat.simps [simp del]

text \<open>\<^verbatim>\<open>migrate_db()\<close>\<close>

definition migrate_db :: "sys \<Rightarrow> cfg \<Rightarrow> comp" where
  "migrate_db E C w =
     spawn_c E ''migrate''
       (Proc_init ''migrate'' [PYTHON_EXE C, MANAGE_PY C, ''migrate'', ''--noinput'']
          (PROJECT_ROOT C) False)
       (log Running_migrations w)"

text \<open>
  \<^verbatim>\<open>for _ in range(40): if self._tcp_open(...): log; return; time.sleep(0.25)\<close> followed by
  the warning, in \<^verbatim>\<open>ensure_redis\<close>.
\<close>

fun redis_wait :: "sys \<Rightarrow> cfg \<Rightarrow> nat \<Rightarrow> world \<Rightarrow> world" where
  "redis_wait E C 0 w = log Redis_unreachable w"
| "redis_wait E C (Suc n) w =
     (if tcp_open E (REDIS_HOST C) (REDIS_PORT C) w then log Redis_up w
      else redis_wait E C n (sleep 250 w))"

text \<open>\<^verbatim>\<open>ensure_redis()\<close>\<close>

definition ensure_redis :: "sys \<Rightarrow> cfg \<Rightarrow> comp" where
  "ensure_redis E C w =
     (if tcp_open E (REDIS_HOST C) (REDIS_PORT C) w then
        (None, log (Redis_available (REDIS_HOST C) (REDIS_PORT C)) w)
      else if DOCKER_EXE C = [] \<or> \<not> path_exists E (DOCKER_EXE C) w then
        (None, log Redis_no_docker w)
      else
        then_do
          (spawn_c E ''redis_docker''
             (Proc_init ''redis(docker)''
                [DOCKER_EXE C, ''run'', ''--rm'', ''-d'', ''--name'', REDIS_DOCKER_NAME C,
                 ''-p'', str_nat (REDIS_PORT C) @ '':6379'',
                 ''--memory'', DOCKER_MEMORY_LIMIT C, ''--cpus'', DOCKER_CPU_LIMIT C, ''redis:7'']
                (PROJECT_ROOT C) False))
          (pure_do (redis_wait E C 40))
          (log Redis_launching w))"

text \<open>
  \<^verbatim>\<open>start_daphne()\<close>. The readiness waiter it starts is a thread of its own that only
  probes the port and writes log lines; it is not modelled.
\<close>

definition start_daphne :: "sys \<Rightarrow> cfg \<Rightarrow> comp" where
  "start_daphne E C w =
     (case check_port_conflict E (DAPHNE_PORT C) ''Daphne'' w of
        (Some e, _, w1) \<Rightarrow> (Some e, w1)
      | (None, _, w1) \<Rightarrow>
          spawn_c E ''daphne''
            (Proc_init ''daphne''
               [DAPHNE_EXE C, DJANGO_ASGI_APP C, ''--port'', str_nat (DAPHNE_PORT C),
                ''--bind'', DAPHNE_HOST C]
               (PROJECT_ROOT C) True)
            w1)"

text \<open>
  The \<^verbatim>\<open>try\<close> block at the head of \<^verbatim>\<open>start_celery_beat\<close>, which removes an old
  schedule file.
\<close>

definition remove_schedule :: "sys \<Rightarrow> cfg \<Rightarrow> world \<Rightarrow> world" where
  "remove_schedule E C w =
     (if path_exists E (CELERY_BEAT_SCHEDULE_PATH C) w then
        (case remove_raises E (CELERY_BEAT_SCHEDULE_PATH C) w of
           Some e \<Rightarrow> log (Beat_schedule_warning e) w
         | None \<Rightarrow> w\<lparr>removed_files := removed_files w @ [CELERY_BEAT_SCHEDULE_PATH C]\<rparr>)
      else w)"

text \<open>\<^verbatim>\<open>start_celery_beat()\<close>\<close>

definition start_celery_beat :: "sys \<Rightarrow> cfg \<Rightarrow> comp" where
  "start_celery_beat E C w =
     spawn_c E ''celery_beat''
       (Proc_init ''celery-beat''
          [CELERY_EXE C, ''-A'', ''scanner_backend.celery:app'', ''beat'', ''-l'', ''info'',
           ''-s'', CELERY_BEAT_SCHEDULE_PATH C]
          (PROJECT_ROOT C) True)
       (remove_schedule E C w)"

text \<open>\<^verbatim>\<open>start_celery_worker()\<close>\<close>

definition start_celery_worker :: "sys \<Rightarrow> cfg \<Rightarrow> comp" where
  "start_celery_worker E C w =
     (let base = [CELERY_EXE C, ''-A'', ''scanner_backend.celery:app'', ''worker'',
                  ''-Q'', CELERY_QUEUE C, ''-l'', ''info'',
                  ''-P'', CELERY_POOL C, ''-c'', str_nat (CELERY_CONCURRENCY C)];
          args = (if CELERY_POOL C = ''eventlet'' \<or> CELERY_POOL C = ''gevent''
                  then base @ [''--without-gossip'', ''--without-mingle'', ''--without-heartbeat'']
                  else base)
      in spawn_c E ''celery_worker'' (Proc_init ''celery-worker'' args (PROJECT_ROOT C) True) w)"

text \<open>
  \<^verbatim>\<open>start_frontend()\<close>. The browser opener it starts is a thread of its own and is not
  modelled.
\<close>

definition start_frontend :: "sys \<Rightarrow> cfg \<Rightarrow> comp" where
  "start_frontend E C w =
     (let launch_it =
            spawn_c E ''frontend''
              (Proc_init ''frontend''
                 [NPM_EXE C, ''run'', ''dev'', ''--'', ''--port'', str_nat (FRONTEND_PORT C),
                  ''--strictPort'', ''--host'', FRONTEND_HOST C]
                 (FRONTEND_DIR C) True)
      in
      if live_tracked w ''frontend'' then (None, log Frontend_managed_running w)
      else if tcp_open E ''127.0.0.1'' (FRONTEND_PORT C) w then
        (let w1 = log (Frontend_port_in_use (FRONTEND_PORT C)) w in
         case call_notify E (Frontend_port_notice (FRONTEND_PORT C)) Warning w1 of
           (Some e, w2) \<Rightarrow> (Some e, w2)
         | (None, w2) \<Rightarrow>
             (let pids = find_pids_on_port E (FRONTEND_PORT C) w2 in
              if pids \<noteq> [] then
                (case prompt_kill_pids E (FRONTEND_PORT C) pids ''Frontend'' w2 of
                   (True, w3) \<Rightarrow>
                     (let w4 = sleep 1000 w3 in
                      if tcp_open E ''127.0.0.1'' (FRONTEND_PORT C) w4
                      then (None, log Port_still_in_use w4)
                      else launch_it w4)
                 | (False, w3) \<Rightarrow> (None, log Conflict_not_resolved w3))
              else (None, log Could_not_identify w2)))
      else launch_it w)"

text \<open>\<^verbatim>\<open>_restart_proc(key)\<close>\<close>

definition restart_proc :: "sys \<Rightarrow> cfg \<Rightarrow> string \<Rightarrow> comp" where
  "restart_proc E C key w =
     (case map_of (procs w) key of
        None \<Rightarrow> (None, w)
      | Some proc \<Rightarrow>
          if key = ''daphne'' then start_daphne E C w
          else if key = ''celery_beat'' then start_celery_beat E C w
          else if key = ''celery_worker'' then start_celery_worker E C w
          else if key = ''frontend'' then start_frontend E C w
          else (None, w))"

section \<open>Timers\<close>

text \<open>
  What a timer does when it fires. The restart closure reads the monitor's loop variable;
  it is created inside the loop, so the variable is bound whenever the closure runs.
\<close>

fun run_action :: "sys \<Rightarrow> cfg \<Rightarrow> timer_action \<Rightarrow> comp" where
  "run_action E C Restart_loop_key w =
     (case monitor_key w of
        None \<Rightarrow> (Some (Exception ''NameError''), w)
      | Some key \<Rightarrow> restart_proc E C key w)"
| "run_action E C Start_daphne w = start_daphne E C w"
| "run_action E C Start_celery_beat w = start_celery_beat E C w"
| "run_action E C Start_celery_worker w = start_celery_worker E C w"
| "run_action E C Start_frontend w = start_frontend E C w"

text \<open>
  The earliest pending timer fires: time passes until it is due and its action runs in a
  thread of its own, where an exception ends that thread only.
\<close>

definition fire_timer :: "sys \<Rightarrow> cfg \<Rightarrow> world \<Rightarrow> world" where
  "fire_timer E C w =
     (case timers w of
        [] \<Rightarrow> w
      | (t, a) # ts \<Rightarrow> snd (run_action E C a (w\<lparr>timers := ts, clock := max (clock w) t\<rparr>)))"

section \<open>Orchestration\<close>

definition schedule :: "nat \<Rightarrow> timer_action \<Rightarrow> world \<Rightarrow> world" where
  "schedule delay a w = w\<lparr>timers := add_timer (clock w + delay, a) (timers w)\<rparr>"

text \<open>\<^verbatim>\<open>start_backend()\<close>\<close>

definition start_backend :: "sys \<Rightarrow> cfg \<Rightarrow> comp" where
  "start_backend E C =
     then_do (ensure_redis E C)
       (then_do
          (\<lambda>w. if MIGRATION_POLICY C = ''always''
                then then_do (migrate_db E C) (pure_do (sleep 1000)) w
                else (None, w))
          (pure_do (\<lambda>w. schedule 2000 Start_celery_worker
                           (schedule 1500 Start_celery_beat
                              (schedule 1000 Start_daphne w)))))"

text \<open>\<^verbatim>\<open>start_all()\<close>\<close>

definition start_all :: "sys \<Rightarrow> cfg \<Rightarrow> comp" where
  "start_all E C = then_do (start_backend E C) (pure_do (schedule 3000 Start_frontend))"

text \<open>The local list \<^verbatim>\<open>order\<close> of \<^verbatim>\<open>stop_all\<close>.\<close>

definition stop_order :: "string list" where
  "stop_order =
     [''frontend'', ''celery_worker'', ''celery_beat'', ''daphne'', ''redis_docker'', ''migrate'']"

text \<open>
  \<^verbatim>\<open>for key in order: try: self._terminate(key); time.sleep(0.5) except Exception as e: log\<close>
\<close>

fun stop_keys :: "sys \<Rightarrow> string list \<Rightarrow> world \<Rightarrow> world" where
  "stop_keys E [] w = w"
| "stop_keys E (key # ks) w =
     (case terminate_c E key w of
        (None, w') \<Rightarrow> stop_keys E ks (sleep 500 w')
      | (Some e, w') \<Rightarrow> stop_keys E ks (log (Error_stopping key e) w'))"

text \<open>The worker of \<^verbatim>\<open>stop_all()\<close>, run to its end.\<close>

definition stop_all :: "sys \<Rightarrow> cfg \<Rightarrow> world \<Rightarrow> world" where
  "stop_all E C w =
     (let w1 = stop_keys E stop_order (log Stopping_all w);
          w2 = sleep 1000 w1;
          w3 = (if tcp_open E ''127.0.0.1'' (FRONTEND_PORT C) w2
                then log (Frontend_port_still_open (FRONTEND_PORT C)) w2 else w2);
          w4 = (if tcp_open E ''127.0.0.1'' (DAPHNE_PORT C) w3
                then log (Daphne_port_still_open (DAPHNE_PORT C)) w3 else w3)
      in log All_stopped w4)"

section \<open>\<^verbatim>\<open>StackController._http_ok\<close>\<close>

text \<open>
  \<^verbatim>\<open>s.split(sep, 1)\<close> when \<open>sep\<close> occurs in \<open>s\<close>: the text before and after its first
  occurrence; \<open>None\<close> when it does not occur.
\<close>

fun split_first :: "string \<Rightarrow> string \<Rightarrow> (string \<times> string) option" where
  "split_first sep [] = None"
| "split_first sep (c # cs) =
     (if take (length sep) (c # cs) = sep then Some ([], drop (length sep) (c # cs))
      else (case split_first sep cs of
              None \<Rightarrow> None
            | Some (a, b) \<Rightarrow> Some (c # a, b)))"

text \<open>
  The three parsing lines of \<^verbatim>\<open>_http_ok\<close>: host, port text and path of the URL, or
  \<open>None\<close> where Python raises (\<^verbatim>\<open>IndexError\<close> when there is no \<^verbatim>\<open>//\<close>,
  \<^verbatim>\<open>ValueError\<close> when \<^verbatim>\<open>host_port.split(":")\<close> does not give exactly two parts).
\<close>

definition url_parts :: "string \<Rightarrow> (string \<times> string \<times> string) option" where
  "url_parts url =
     (case split_first ''//'' url of
        None \<Rightarrow> None
      | Some (_, rest) \<Rightarrow>
          (let host_port = (case split_first ''/'' rest of None \<Rightarrow> rest | Some (a, _) \<Rightarrow> a) in
           case split_first '':'' host_port of
             None \<Rightarrow> None
           | Some (host, port) \<Rightarrow>
               if CHR '':'' \<in> set port then None
               else
                 (case split_first host_port url of
                    None \<Rightarrow> None
                  | Some (_, path) \<Rightarrow> Some (host, port, if path = [] then ''/'' else path))))"

text \<open>
  \<^verbatim>\<open>_http_ok(url, timeout)\<close>. \<open>py_int\<close> is Python's \<^verbatim>\<open>int\<close> on text (\<open>None\<close> when it
  raises \<^verbatim>\<open>ValueError\<close>); \<open>get_status\<close> is the exchange
  \<^verbatim>\<open>HTTPConnection(host, port).request("GET", path); getresponse().status\<close>, \<open>None\<close> when
  any step of it raises.
\<close>

definition http_ok ::
  "(string \<Rightarrow> int option) \<Rightarrow> (string \<Rightarrow> int \<Rightarrow> string \<Rightarrow> int option) \<Rightarrow> string \<Rightarrow> bool" where
  "http_ok py_int get_status url =
     (case url_parts url of
        None \<Rightarrow> False
      | Some (host, port, path) \<Rightarrow>
          (case py_int port of
             None \<Rightarrow> False
           | Some n \<Rightarrow>
               (case get_status host n path of
                  None \<Rightarrow> False
                | Some st \<Rightarrow> 200 \<le> st \<and> st < 500)))"

section \<open>Predicates and scenarios used by the properties\<close>

text \<open>
  Well-formedness of the table: the keys of the dict are distinct, and every stored handle
  refers to an OS process that has been launched.
\<close>

definition wf :: "world \<Rightarrow> bool" where
  "wf w = (distinct (map fst (procs w)) \<and>
           (\<forall>(k, pr) \<in> set (procs w). \<exists>i. p pr = Some i \<and> i < length (os_procs w)))"

text \<open>A host whose callbacks, where present, never raise.\<close>

definition quiet :: "sys \<Rightarrow> bool" where
  "quiet E = ((case status_callback E of None \<Rightarrow> True | Some f \<Rightarrow> \<forall>k s w. f k s w = None) \<and>
              (case notify_callback E of None \<Rightarrow> True | Some f \<Rightarrow> \<forall>n s w. f n s w = None))"

text \<open>
  The state \<^verbatim>\<open>_spawn\<close> commits after a successful launch: one more OS process, and the
  handle stored under its key.
\<close>

definition launched_world :: "string \<Rightarrow> Proc \<Rightarrow> (nat \<times> int) option \<Rightarrow> nat option \<Rightarrow> world \<Rightarrow> world" where
  "launched_world key proc life td w =
     w\<lparr>os_procs := os_procs w @
           [\<lparr>exit_at = (case life of None \<Rightarrow> None | Some (d, c) \<Rightarrow> Some (clock w + d, c)),
             term_delay = td\<rparr>],
       procs := dict_set (procs w) key
                  (proc\<lparr>start_time := Some (clock w), p := Some (length (os_procs w)), status := RUNNING\<rparr>)\<rparr>"

text \<open>The pids of the launched OS processes that are running.\<close>

definition live_pids :: "world \<Rightarrow> pid list" where
  "live_pids w = filter (\<lambda>i. poll w i = None) [0..<length (os_procs w)]"

text \<open>
  The state right after \<^verbatim>\<open>StackController.__init__\<close>: an empty table, and the
  monitoring thread started.
\<close>

definition world0 :: world where
  "world0 =
     \<lparr>procs = [], os_procs = [], clock = 0, ui_log = [], signals = [], foreign_signals = [],
      timers = [], monitor_key = None, monitor_alive = True, stop_monitoring = False,
      removed_files = []\<rparr>"

text \<open>
  A host without callbacks, without anything listening on the ports, and without a Tk
  root, on which every launch has the given result.
\<close>

definition host_with :: "launch \<Rightarrow> sys" where
  "host_with l =
     \<lparr>popen = (\<lambda>_ _ _. l), status_callback = None, notify_callback = None,
      tcp_connect = (\<lambda>_ _ _. False), net_listeners = (\<lambda>_ _. []),
      tk_root = (\<lambda>_. False), askyesno = (\<lambda>_. None), HAS_PSUTIL = True,
      foreign_proc = (\<lambda>_ _. \<lparr>terminate_raises = None, gone_after_wait = True, kill_raises = None\<rparr>),
      path_exists = (\<lambda>_ _. False), remove_raises = (\<lambda>_ _. None)\<rparr>"

text \<open>A program that keeps running and exits 300 ms after a graceful stop signal.\<close>

definition steady :: launch where
  "steady = Launched None (Some 300)"

text \<open>A program that exits with code 0 as soon as it is launched.\<close>

definition exits_at_once :: launch where
  "exits_at_once = Launched (Some (0, 0)) (Some 300)"

text \<open>The handle \<^verbatim>\<open>start_celery_beat\<close> builds, with the argument list left empty.\<close>

definition beat_proc :: Proc where
  "beat_proc = Proc_init ''celery-beat'' [] ''/srv'' True"

text \<open>The state after a first \<^verbatim>\<open>_spawn("celery_beat", ...)\<close> of a steady program.\<close>

definition world_beat :: world where
  "world_beat = snd (snd (spawn (host_with steady) ''celery_beat'' beat_proc world0))"


text \<open>A host like the previous one, but with a Tk root and an operator who answers yes.\<close>

definition consent_host :: "sys" where
  "consent_host = (host_with steady)\<lparr>tk_root := (\<lambda>_. True), askyesno := (\<lambda>_. Some True)\<rparr>"

text \<open>Python's \<^verbatim>\<open>int\<close> on the one port text the examples use.\<close>

definition port_int :: "string \<Rightarrow> int option" where
  "port_int s = (if s = ''5178'' then Some 5178 else None)"


text \<open>
  The states the controller can be in: the state after construction, and every state
  obtained from one of those by letting time pass, by one of the controller's operations
  run to its end on any host and configuration, by a monitor tick, by a timer that fires,
  or by the closing of the window (which sets \<^verbatim>\<open>_stop_monitoring\<close>).
\<close>

inductive reachable :: "world \<Rightarrow> bool" where
  init: "reachable world0"
| time_passes: "reachable w \<Longrightarrow> reachable (sleep n w)"
| do_spawn: "reachable w \<Longrightarrow> reachable (snd (snd (spawn E key proc w)))"
| do_terminate: "reachable w \<Longrightarrow> reachable (snd (snd (terminate E key w)))"
| do_migrate_db: "reachable w \<Longrightarrow> reachable (snd (migrate_db E C w))"
| do_start_backend: "reachable w \<Longrightarrow> reachable (snd (start_backend E C w))"
| do_start_frontend: "reachable w \<Longrightarrow> reachable (snd (start_frontend E C w))"
| do_start_all: "reachable w \<Longrightarrow> reachable (snd (start_all E C w))"
| do_stop_all: "reachable w \<Longrightarrow> reachable (stop_all E C w)"
| tick: "reachable w \<Longrightarrow> reachable (monitor_tick E w)"
| timer_fires: "reachable w \<Longrightarrow> reachable (fire_timer E C w)"
| on_close: "reachable w \<Longrightarrow> reachable (w\<lparr>stop_monitoring := True\<rparr>)"



text \<open>The state after a first \<^verbatim>\<open>_spawn("celery_beat", ...)\<close> of a program that exits at once.\<close>

definition world_crashed :: world where
  "world_crashed = snd (snd (spawn (host_with exits_at_once) ''celery_beat'' beat_proc world0))"

text \<open>
  The state after the executable has disappeared and \<^verbatim>\<open>_spawn("celery_beat", ...)\<close> was
  called again.
\<close>

definition world_failed_respawn :: world where
  "world_failed_respawn =
     snd (snd (spawn (host_with (Launch_raises (FileNotFoundError ''celery''))) ''celery_beat''
                 beat_proc world_crashed))"


text \<open>
  One round of the crash scenario: the monitor ticks, then the pending timer fires.
\<close>

definition crash_cycle :: "sys \<Rightarrow> cfg \<Rightarrow> world \<Rightarrow> world" where
  "crash_cycle E C w = fire_timer E C (monitor_tick E w)"

text \<open>
  The shape of the state between rounds of the crash scenario: celery-beat is the only
  tracked service, its handle is fresh (\<open>RUNNING\<close>, restart count 0), it refers to the
  process launched last, which ended as it was launched, and no timer is pending.
\<close>

definition fresh_beat :: "world \<Rightarrow> bool" where
  "fresh_beat w =
     (map fst (procs w) = [''celery_beat''] \<and>
      name (snd (hd (procs w))) = ''celery-beat'' \<and>
      status (snd (hd (procs w))) = RUNNING \<and>
      auto_restart (snd (hd (procs w))) \<and>
      restart_count (snd (hd (procs w))) = 0 \<and>
      os_procs w \<noteq> [] \<and>
      p (snd (hd (procs w))) = Some (length (os_procs w) - 1) \<and>
      exit_at (last (os_procs w)) = Some (clock w, 0) \<and>
      timers w = [] \<and> monitor_alive w \<and> \<not> stop_monitoring w)"

text \<open>A configuration with the default ports, a Docker executable and migrations on every start.\<close>

definition demo_cfg :: cfg where
  "demo_cfg =
     \<lparr>PROJECT_ROOT = ''/srv/backend'', FRONTEND_DIR = ''/srv/frontend'', NPM_EXE = ''/usr/bin/npm'',
      DOCKER_EXE = ''/usr/bin/docker'', PYTHON_EXE = ''/srv/backend/venv/bin/python'',
      CELERY_EXE = ''/srv/backend/venv/bin/celery'', DAPHNE_EXE = ''/srv/backend/venv/bin/daphne'',
      MANAGE_PY = ''/srv/backend/manage.py'',
      CELERY_BEAT_SCHEDULE_PATH = ''/srv/backend/celerybeat-schedule'',
      DJANGO_ASGI_APP = ''scanner_backend.asgi:application'', DAPHNE_HOST = ''127.0.0.1'',
      DAPHNE_PORT = 8070, FRONTEND_HOST = ''127.0.0.1'', FRONTEND_PORT = 5178,
      REDIS_HOST = ''127.0.0.1'', REDIS_PORT = 6379, REDIS_DOCKER_NAME = ''local-redis-7'',
      CELERY_QUEUE = ''ingestion'', CELERY_POOL = ''solo'', CELERY_CONCURRENCY = 1,
      MIGRATION_POLICY = ''always'', DOCKER_MEMORY_LIMIT = ''512m'', DOCKER_CPU_LIMIT = ''1.0''\<rparr>"

text \<open>
  A host on which the Docker executable exists, no port answers, and every launch gives
  a program that keeps running.
\<close>

definition full_host :: sys where
  "full_host = (host_with steady)\<lparr>path_exists := (\<lambda>f _. f = ''/usr/bin/docker'')\<rparr>"





text \<open>The keys of the table with the process references of their handles, in table order.\<close>

definition keys_pids :: "world \<Rightarrow> (string \<times> pid option) list" where
  "keys_pids w = map (\<lambda>(k, pr). (k, p pr)) (procs w)"


section \<open>Auxiliary facts\<close>

lemma call_status_quiet: "quiet E \<Longrightarrow> call_status E k s w = (None, w)"
  by (auto simp: quiet_def call_status_def split: option.splits)

lemma call_notify_quiet: "quiet E \<Longrightarrow> call_notify E n s w = (None, w)"
  by (auto simp: quiet_def call_notify_def split: option.splits)

lemma call_status_world: "call_status E k s w = (r, w') \<Longrightarrow> w' = w"
  by (auto simp: call_status_def split: option.splits)

lemma call_notify_world: "call_notify E n s w = (r, w') \<Longrightarrow> w' = w"
  by (auto simp: call_notify_def split: option.splits)

lemma spawn_idem:
  assumes "live_tracked w key"
  shows "spawn E key proc w = (None, proc, w\<lparr>ui_log := ui_log w @ [Already_running (name proc)]\<rparr>)"
  using assms by (simp add: spawn_def log_def)


lemma fst_dict_set: "k \<in> fst ` set d \<Longrightarrow> map fst (dict_set d k v) = map fst d"
  by (induction d) force+

lemma fst_dict_set_new: "k \<notin> fst ` set d \<Longrightarrow> map fst (dict_set d k v) = map fst d @ [k]"
  by (induction d) auto

lemma set_dict_set: "set (dict_set d k v) \<subseteq> insert (k, v) (set d)"
  by (induction d) (auto split: if_splits)

lemma distinct_dict_set: "distinct (map fst d) \<Longrightarrow> distinct (map fst (dict_set d k v))"
  by (cases "k \<in> fst ` set d") (simp_all add: fst_dict_set fst_dict_set_new)

lemma set_dict_pop: "set (dict_pop d k) \<subseteq> set d"
  by (induction d) (auto split: if_splits)

lemma map_of_dict_pop: "distinct (map fst d) \<Longrightarrow> map_of (dict_pop d k) k' = (if k' = k then None else map_of d k')"
proof (induction d)
  case Nil then show ?case by simp
next
  case (Cons a d)
  have sub: "fst ` set (dict_pop d k) \<subseteq> fst ` set d" using set_dict_pop by blast
  obtain ka va where a: "a = (ka, va)" by (cases a)
  from Cons have d: "distinct (map fst d)" and nk: "ka \<notin> fst ` set d" by (auto simp: a)
  show ?case
  proof (cases "ka = k")
    case True
    with nk have "map_of d k = None" by (simp add: map_of_eq_None_iff)
    with True show ?thesis by (simp add: a)
  next
    case False
    with Cons.IH[OF d] show ?thesis by (auto simp: a)
  qed
qed

lemma distinct_dict_pop: "distinct (map fst d) \<Longrightarrow> distinct (map fst (dict_pop d k))"
proof (induction d)
  case Nil then show ?case by simp
next
  case (Cons a d)
  have "fst ` set (dict_pop d k) \<subseteq> fst ` set d" using set_dict_pop by blast
  with Cons show ?case by (cases a) auto
qed



lemma log_fields:
  "procs (log l w) = procs w" "os_procs (log l w) = os_procs w" "clock (log l w) = clock w"
  "signals (log l w) = signals w" "foreign_signals (log l w) = foreign_signals w"
  "timers (log l w) = timers w" "ui_log (log l w) = ui_log w @ [l]"
  "monitor_key (log l w) = monitor_key w" "monitor_alive (log l w) = monitor_alive w"
  by (simp_all add: log_def)

lemma sleep_fields:
  "procs (sleep n w) = procs w" "os_procs (sleep n w) = os_procs w" "clock (sleep n w) = clock w + n"
  "signals (sleep n w) = signals w" "foreign_signals (sleep n w) = foreign_signals w"
  "timers (sleep n w) = timers w" "ui_log (sleep n w) = ui_log w"
  "monitor_key (sleep n w) = monitor_key w" "monitor_alive (sleep n w) = monitor_alive w"
  by (simp_all add: sleep_def)

lemma poll_cong: "os_procs w' = os_procs w \<Longrightarrow> clock w' = clock w \<Longrightarrow> poll w' i = poll w i"
  by (auto simp: poll_def split: option.splits)

lemma poll_log: "poll (log l w) i = poll w i"
  by (rule poll_cong) (simp_all add: log_fields)

lemma live_tracked_cong:
  "procs w' = procs w \<Longrightarrow> os_procs w' = os_procs w \<Longrightarrow> clock w' = clock w \<Longrightarrow>
   live_tracked w' key = live_tracked w key"
  by (auto simp: live_tracked_def poll_cong[of w' w] split: option.splits)

lemma poll_mono:
  "os_procs w' = os_procs w \<Longrightarrow> clock w \<le> clock w' \<Longrightarrow> poll w i = Some c \<Longrightarrow> poll w' i = Some c"
  by (auto simp: poll_def split: if_splits option.splits)

lemma end_by_fields:
  "procs (end_by i t c w) = procs w" "clock (end_by i t c w) = clock w"
  "signals (end_by i t c w) = signals w" "ui_log (end_by i t c w) = ui_log w"
  "length (os_procs (end_by i t c w)) = length (os_procs w)"
  "timers (end_by i t c w) = timers w" "foreign_signals (end_by i t c w) = foreign_signals w"
  by (simp_all add: end_by_def split: option.splits)


lemma popen_terminate_fields:
  "procs (popen_terminate i w) = procs w" "clock (popen_terminate i w) = clock w"
  "ui_log (popen_terminate i w) = ui_log w"
  "length (os_procs (popen_terminate i w)) = length (os_procs w)"
  "timers (popen_terminate i w) = timers w"
  "foreign_signals (popen_terminate i w) = foreign_signals w"
  by (simp_all add: popen_terminate_def Let_def end_by_fields split: option.splits)


lemma popen_kill_fields:
  "procs (popen_kill i w) = procs w" "clock (popen_kill i w) = clock w"
  "ui_log (popen_kill i w) = ui_log w"
  "length (os_procs (popen_kill i w)) = length (os_procs w)"
  "timers (popen_kill i w) = timers w"
  "foreign_signals (popen_kill i w) = foreign_signals w"
  by (simp_all add: popen_kill_def end_by_fields)



lemma poll_wait_fields:
  "procs (poll_wait k i w) = procs w" "os_procs (poll_wait k i w) = os_procs w"
  "signals (poll_wait k i w) = signals w" "ui_log (poll_wait k i w) = ui_log w"
  "timers (poll_wait k i w) = timers w" "foreign_signals (poll_wait k i w) = foreign_signals w"
  by (induction k arbitrary: w) (simp_all add: sleep_fields)



lemma stop_process_fields:
  "procs (stop_process proc i w) = procs w"
  "length (os_procs (stop_process proc i w)) = length (os_procs w)"
  "timers (stop_process proc i w) = timers w"
  "foreign_signals (stop_process proc i w) = foreign_signals w"
  by (simp_all add: stop_process_def Let_def log_fields popen_kill_fields poll_wait_fields
        popen_terminate_fields)




lemma wf_tracked:
  assumes "wf w" "map_of (procs w) key = Some proc"
  shows "\<exists>i. p proc = Some i \<and> i < length (os_procs w)"
proof -
  from assms(2) have "(key, proc) \<in> set (procs w)" by (rule map_of_SomeD)
  with assms(1) show ?thesis unfolding wf_def by blast
qed

text \<open>What \<open>terminate\<close> computes for a tracked handle that holds a process reference.\<close>

lemma terminate_tracked:
  assumes "map_of (procs w) key = Some proc" "p proc = Some i"
  defines "w1 \<equiv> (if poll w i = None then stop_process proc i w else w)"
  defines "w2 \<equiv> w1\<lparr>procs := dict_set (procs w1) key (proc\<lparr>status := STOPPED\<rparr>)\<rparr>"
  shows "terminate E key w =
           (case call_status E key STOPPED w2 of
              (Some e, w3) \<Rightarrow> (Some e, Some (proc\<lparr>status := STOPPED\<rparr>), w3)
            | (None, w3) \<Rightarrow> (None, Some (proc\<lparr>status := STOPPED\<rparr>), w3\<lparr>procs := dict_pop (procs w3) key\<rparr>))"
  using assms(1,2) unfolding terminate_def w1_def w2_def by (simp add: Let_def)

lemma terminate_post_lemma:
  assumes "wf w" "map_of (procs w) key = Some proc" "terminate E key w = (None, h, w')"
  shows "map_of (procs w') key = None \<and> h = Some (proc\<lparr>status := STOPPED\<rparr>)"
proof -
  from wf_tracked[OF assms(1,2)] obtain i where i: "p proc = Some i" "i < length (os_procs w)" by blast
  define w1 where "w1 = (if poll w i = None then stop_process proc i w else w)"
  define w2 where "w2 = w1\<lparr>procs := dict_set (procs w1) key (proc\<lparr>status := STOPPED\<rparr>)\<rparr>"
  have p1: "procs w1 = procs w" by (simp add: w1_def stop_process_fields)
  have d: "distinct (map fst (procs w2))"
    using assms(1) by (simp add: w2_def p1 wf_def distinct_dict_set)
  obtain r w3 where cs: "call_status E key STOPPED w2 = (r, w3)" by (cases "call_status E key STOPPED w2")
  then have w3: "w3 = w2" by (rule call_status_world)
  from assms(3) cs have r: "r = None" and h: "h = Some (proc\<lparr>status := STOPPED\<rparr>)"
    and w': "w' = w3\<lparr>procs := dict_pop (procs w3) key\<rparr>"
    unfolding terminate_tracked[OF assms(2) i(1)] w1_def[symmetric] w2_def[symmetric]
    by (auto split: option.splits)
  from d show ?thesis by (simp add: w' w3 h map_of_dict_pop)
qed



lemma spawn_launched_eq:
  "\<exists>r. spawn_launched E key proc life td w =
        (r, proc\<lparr>start_time := Some (clock w), p := Some (length (os_procs w)), status := RUNNING\<rparr>,
         launched_world key proc life td w)"
  by (auto simp: spawn_launched_def launched_world_def Let_def call_status_def call_notify_def
        split: option.splits prod.splits)

lemma spawn_launched_quiet:
  "quiet E \<Longrightarrow> spawn_launched E key proc life td w =
        (None, proc\<lparr>start_time := Some (clock w), p := Some (length (os_procs w)), status := RUNNING\<rparr>,
         launched_world key proc life td w)"
  by (simp add: spawn_launched_def launched_world_def Let_def call_status_quiet call_notify_quiet)

lemma spawn_not_found_eq:
  "\<exists>r. spawn_not_found E key proc m w =
        (r, proc\<lparr>status := FAILED, last_error := Some (Launch_error m)\<rparr>,
         log (Not_found (name proc) m) w)"
  by (auto simp: spawn_not_found_def Let_def call_status_def call_notify_def
        split: option.splits prod.splits)

lemma spawn_not_found_quiet:
  "quiet E \<Longrightarrow> spawn_not_found E key proc m w =
        (None, proc\<lparr>status := FAILED, last_error := Some (Launch_error m)\<rparr>,
         log (Not_found (name proc) m) w)"
  by (simp add: spawn_not_found_def Let_def call_status_quiet call_notify_quiet)

text \<open>What \<open>spawn\<close> computes when the callbacks do not raise and the key has no live process.\<close>

lemma spawn_quiet:
  assumes "quiet E" "\<not> live_tracked w key"
  shows "spawn E key proc w =
     (let w2 = log (Starting (name proc)) w; proc1 = proc\<lparr>status := STARTING\<rparr> in
      case popen E (args proc) (cwd proc) w2 of
        Launched life td \<Rightarrow>
          (None, proc1\<lparr>start_time := Some (clock w), p := Some (length (os_procs w)), status := RUNNING\<rparr>,
           launched_world key proc1 life td w2)
      | Launch_raises (FileNotFoundError m) \<Rightarrow>
          (None, proc1\<lparr>status := FAILED, last_error := Some (Launch_error m)\<rparr>,
           log (Not_found (name proc) m) w2)
      | Launch_raises e \<Rightarrow> (Some e, proc1, w2))"
  using assms
  by (simp add: spawn_def Let_def call_status_quiet spawn_launched_quiet spawn_not_found_quiet
        log_fields split: launch.splits exn.splits)

text \<open>
  Whatever happens, \<open>spawn\<close> either leaves the table and the OS processes as they were, or
  it has launched one process and stored the handle that refers to it.
\<close>

lemma spawn_table:
  assumes "spawn E key proc w = (r, proc', w')"
  shows "(procs w' = procs w \<and> os_procs w' = os_procs w) \<or>
         (\<exists>life td. popen E (args proc) (cwd proc) (log (Starting (name proc)) w) = Launched life td \<and>
            \<not> live_tracked w key \<and>
            w' = launched_world key (proc\<lparr>status := STARTING\<rparr>) life td (log (Starting (name proc)) w) \<and>
            proc' = proc\<lparr>status := STARTING, start_time := Some (clock w),
                       p := Some (length (os_procs w)), status := RUNNING\<rparr>)"
proof (cases "live_tracked w key")
  case True
  with assms show ?thesis by (auto simp: spawn_def log_fields)
next
  case False
  obtain r1 w1 where cs: "call_status E key STARTING w = (r1, w1)" by (cases "call_status E key STARTING w")
  then have w1: "w1 = w" by (rule call_status_world)
  show ?thesis
  proof (cases r1)
    case (Some e)
    with assms False cs w1 show ?thesis by (simp add: spawn_def)
  next
    case None
    let ?w2 = "log (Starting (name proc)) w"
    show ?thesis
    proof (cases "popen E (args proc) (cwd proc) ?w2")
      case (Launched life td)
      from spawn_launched_eq[of E key "proc\<lparr>status := STARTING\<rparr>" life td ?w2]
      obtain r2 where "spawn_launched E key (proc\<lparr>status := STARTING\<rparr>) life td ?w2 =
        (r2, proc\<lparr>status := STARTING, start_time := Some (clock ?w2), p := Some (length (os_procs ?w2)), status := RUNNING\<rparr>,
         launched_world key (proc\<lparr>status := STARTING\<rparr>) life td ?w2)" by auto
      with assms False cs w1 None Launched show ?thesis
        by (simp add: spawn_def Let_def log_fields)
    next
      case (Launch_raises e)
      show ?thesis
      proof (cases e)
        case (FileNotFoundError m)
        from spawn_not_found_eq[of E key "proc\<lparr>status := STARTING\<rparr>" m ?w2]
        obtain r2 where "spawn_not_found E key (proc\<lparr>status := STARTING\<rparr>) m ?w2 =
          (r2, proc\<lparr>status := STARTING, status := FAILED, last_error := Some (Launch_error m)\<rparr>,
           log (Not_found (name proc) m) ?w2)" by auto
        with assms False cs w1 None Launch_raises FileNotFoundError show ?thesis
          by (auto simp: spawn_def Let_def log_fields)
      qed (use assms False cs w1 None Launch_raises in \<open>auto simp: spawn_def Let_def log_fields\<close>)
    qed
  qed
qed

lemma terminate_untracked:
  "map_of (procs w) key = None \<Longrightarrow> terminate E key w = (None, None, w)"
  by (simp add: terminate_def)


text \<open>The fields \<open>terminate\<close> leaves to the stop sequence of the tracked process.\<close>

lemma terminate_tracked_fields:
  assumes "map_of (procs w) key = Some proc" "p proc = Some i" "terminate E key w = (r, h, w')"
  defines "w1 \<equiv> (if poll w i = None then stop_process proc i w else w)"
  shows "clock w' = clock w1" "signals w' = signals w1" "os_procs w' = os_procs w1"
        "timers w' = timers w1" "foreign_signals w' = foreign_signals w1"
        "set (procs w') \<subseteq> insert (key, proc\<lparr>status := STOPPED\<rparr>) (set (procs w))"
        "distinct (map fst (procs w)) \<Longrightarrow> distinct (map fst (procs w'))"
proof -
  define w2 where "w2 = w1\<lparr>procs := dict_set (procs w1) key (proc\<lparr>status := STOPPED\<rparr>)\<rparr>"
  obtain r3 w3 where cs: "call_status E key STOPPED w2 = (r3, w3)" by (cases "call_status E key STOPPED w2")
  then have w3: "w3 = w2" by (rule call_status_world)
  have p1: "procs w1 = procs w" by (simp add: w1_def stop_process_fields)
  from assms(3) cs w3 have w': "w' = w2 \<or> w' = w2\<lparr>procs := dict_pop (procs w2) key\<rparr>"
    unfolding terminate_tracked[OF assms(1,2)] w1_def[symmetric] w2_def[symmetric]
    by (auto split: option.splits)
  then show "clock w' = clock w1" "signals w' = signals w1" "os_procs w' = os_procs w1"
    "timers w' = timers w1" "foreign_signals w' = foreign_signals w1"
    by (auto simp: w2_def)
  have s2: "set (procs w2) \<subseteq> insert (key, proc\<lparr>status := STOPPED\<rparr>) (set (procs w))"
    using set_dict_set[of "procs w" key "proc\<lparr>status := STOPPED\<rparr>"] by (simp add: w2_def p1)
  with w' set_dict_pop[of "procs w2" key]
  show "set (procs w') \<subseteq> insert (key, proc\<lparr>status := STOPPED\<rparr>) (set (procs w))" by auto
  assume "distinct (map fst (procs w))"
  then have "distinct (map fst (procs w2))" by (simp add: w2_def p1 distinct_dict_set)
  with w' show "distinct (map fst (procs w'))" by (auto simp: distinct_dict_pop)
qed

lemma send_foreign_fields:
  "procs (send_foreign i s w) = procs w" "os_procs (send_foreign i s w) = os_procs w"
  "signals (send_foreign i s w) = signals w" "timers (send_foreign i s w) = timers w"
  "foreign_signals (send_foreign i s w) = foreign_signals w @ [(i, s)]"
  by (simp_all add: send_foreign_def)

lemma kill_one_frame:
  "procs (snd (kill_one E i w)) = procs w \<and> os_procs (snd (kill_one E i w)) = os_procs w \<and>
   signals (snd (kill_one E i w)) = signals w \<and> timers (snd (kill_one E i w)) = timers w"
  by (simp add: kill_one_def Let_def send_foreign_fields sleep_fields split: option.splits)

lemma kill_loop_frame:
  "procs (snd (kill_loop E port pids b w)) = procs w \<and>
   os_procs (snd (kill_loop E port pids b w)) = os_procs w \<and>
   signals (snd (kill_loop E port pids b w)) = signals w \<and>
   timers (snd (kill_loop E port pids b w)) = timers w"
proof (induction pids arbitrary: b w)
  case Nil
  then show ?case by simp
next
  case (Cons a pids)
  obtain i n c where a: "a = (i, n, c)" by (cases a)
  obtain r w1 where k: "kill_one E i w = (r, w1)" by (cases "kill_one E i w")
  with kill_one_frame[of E i w] have f: "procs w1 = procs w" "os_procs w1 = os_procs w"
    "signals w1 = signals w" "timers w1 = timers w" by simp_all
  show ?case
    using Cons.IH f by (cases r) (simp_all add: a k log_fields)
qed

lemma prompt_answer_frame:
  "procs (snd (prompt_answer E port pids sn w)) = procs w \<and>
   os_procs (snd (prompt_answer E port pids sn w)) = os_procs w \<and>
   signals (snd (prompt_answer E port pids sn w)) = signals w \<and>
   timers (snd (prompt_answer E port pids sn w)) = timers w \<and>
   foreign_signals (snd (prompt_answer E port pids sn w)) = foreign_signals w"
  by (simp add: prompt_answer_def log_fields split: option.splits)

lemma prompt_answer_True:
  "prompt_answer E port pids sn w = (True, w1) \<Longrightarrow> tk_root E w \<and> askyesno E w = Some True \<and> w1 = w"
  by (auto simp: prompt_answer_def split: if_splits option.splits)

lemma prompt_answer_False:
  "prompt_answer E port pids sn w = (False, w1) \<Longrightarrow>
     (tk_root E w \<and> w1 = w) \<or> (\<not> tk_root E w \<and> w1 = log (Port_prompt port sn pids) w)"
  by (auto simp: prompt_answer_def split: if_splits option.splits)

lemma prompt_kill_pids_frame:
  "procs (snd (prompt_kill_pids E port pids sn w)) = procs w \<and>
   os_procs (snd (prompt_kill_pids E port pids sn w)) = os_procs w \<and>
   signals (snd (prompt_kill_pids E port pids sn w)) = signals w \<and>
   timers (snd (prompt_kill_pids E port pids sn w)) = timers w"
proof -
  obtain a w1 where pa: "prompt_answer E port pids sn w = (a, w1)"
    by (cases "prompt_answer E port pids sn w")
  with prompt_answer_frame[of E port pids sn w]
  have f: "procs w1 = procs w" "os_procs w1 = os_procs w" "signals w1 = signals w" "timers w1 = timers w"
    by simp_all
  show ?thesis
    using f kill_loop_frame[of E port pids False w1]
    by (cases a) (simp_all add: prompt_kill_pids_def pa)
qed

lemma split_first_ex1: "split_first ''//'' ''http://127.0.0.1:5178'' = Some (''http:'', ''127.0.0.1:5178'')"
  by simp

lemma url_parts_frontend: "url_parts ''http://127.0.0.1:5178'' = Some (''127.0.0.1'', ''5178'', ''/'')"
  by (simp add: url_parts_def)

lemma wf_frame: "procs w' = procs w \<Longrightarrow> os_procs w' = os_procs w \<Longrightarrow> wf w \<Longrightarrow> wf w'"
  by (simp add: wf_def)

lemma wf_log: "wf (log l w) = wf w"
  by (simp add: wf_def log_fields)

lemma wf_sleep: "wf (sleep n w) = wf w"
  by (simp add: wf_def sleep_fields)

lemma wf_subset:
  assumes "wf w" "distinct (map fst d)" "length (os_procs w) \<le> n"
    and "set d \<subseteq> insert (key, pr) (set (procs w))" "p pr = Some i" "i < n"
    and that: "length os' = n"
  shows "wf (w\<lparr>procs := d, os_procs := os'\<rparr>)"
  unfolding wf_def
proof (intro conjI ballI)
  show "distinct (map fst (procs (w\<lparr>procs := d, os_procs := os'\<rparr>)))" using assms(2) by simp
next
  fix x assume "x \<in> set (procs (w\<lparr>procs := d, os_procs := os'\<rparr>))"
  then have "x = (key, pr) \<or> x \<in> set (procs w)" using assms(4) by auto
  then show "case x of (k, pr) \<Rightarrow> \<exists>i. p pr = Some i \<and> i < length (os_procs (w\<lparr>procs := d, os_procs := os'\<rparr>))"
  proof
    assume "x = (key, pr)"
    then show ?thesis using assms(5,6) that by simp
  next
    assume "x \<in> set (procs w)"
    with assms(1) obtain k q j where "x = (k, q)" "p q = Some j" "j < length (os_procs w)"
      unfolding wf_def by fastforce
    then show ?thesis using assms(3) that by simp
  qed
qed

lemma wf_launched_world:
  assumes "wf w"
  shows "wf (launched_world key proc life td w)"
proof -
  let ?pr = "proc\<lparr>start_time := Some (clock w), p := Some (length (os_procs w)), status := RUNNING\<rparr>"
  let ?os = "os_procs w @ [\<lparr>exit_at = (case life of None \<Rightarrow> None | Some (d, c) \<Rightarrow> Some (clock w + d, c)), term_delay = td\<rparr>]"
  have "wf (w\<lparr>procs := dict_set (procs w) key ?pr, os_procs := ?os\<rparr>)"
  proof (rule wf_subset[OF assms, where n = "Suc (length (os_procs w))" and i = "length (os_procs w)"])
    show "distinct (map fst (dict_set (procs w) key ?pr))"
      using assms by (simp add: wf_def distinct_dict_set)
    show "set (dict_set (procs w) key ?pr) \<subseteq> insert (key, ?pr) (set (procs w))" by (rule set_dict_set)
  qed simp_all
  moreover have "launched_world key proc life td w = w\<lparr>procs := dict_set (procs w) key ?pr, os_procs := ?os\<rparr>"
    by (simp add: launched_world_def)
  ultimately show ?thesis by simp
qed

lemma spawn_wf:
  assumes "wf w" "spawn E key proc w = (r, proc', w')"
  shows "wf w'"
  using spawn_table[OF assms(2)]
proof
  assume "procs w' = procs w \<and> os_procs w' = os_procs w"
  with assms(1) show ?thesis by (simp add: wf_def)
next
  assume "\<exists>life td. popen E (args proc) (cwd proc) (log (Starting (name proc)) w) = Launched life td \<and>
            \<not> live_tracked w key \<and>
            w' = launched_world key (proc\<lparr>status := STARTING\<rparr>) life td (log (Starting (name proc)) w) \<and>
            proc' = proc\<lparr>status := STARTING, start_time := Some (clock w),
                       p := Some (length (os_procs w)), status := RUNNING\<rparr>"
  then obtain life td where
    "w' = launched_world key (proc\<lparr>status := STARTING\<rparr>) life td (log (Starting (name proc)) w)" by blast
  with assms(1) show ?thesis by (simp add: wf_launched_world wf_log)
qed

lemma spawn_c_wf: "wf w \<Longrightarrow> wf (snd (spawn_c E key proc w))"
  by (cases "spawn E key proc w") (auto simp: spawn_c_def dest: spawn_wf)

lemma terminate_wf:
  assumes "wf w" "terminate E key w = (r, h, w')"
  shows "wf w'"
proof (cases "map_of (procs w) key")
  case None
  with assms show ?thesis by (simp add: terminate_untracked)
next
  case (Some proc)
  from wf_tracked[OF assms(1) Some] obtain i where i: "p proc = Some i" "i < length (os_procs w)" by blast
  note f = terminate_tracked_fields[OF Some i(1) assms(2)]
  have len: "length (os_procs w') = length (os_procs w)"
    using f(3) by (simp add: stop_process_fields)
  have d: "distinct (map fst (procs w'))" using f(7) assms(1) by (simp add: wf_def)
  have "wf (w\<lparr>procs := procs w', os_procs := os_procs w'\<rparr>)"
    by (rule wf_subset[OF assms(1) d _ f(6) _ _ len, where i = i]) (simp_all add: i)
  then show ?thesis by (simp add: wf_def)
qed

lemma terminate_c_wf: "wf w \<Longrightarrow> wf (snd (terminate_c E key w))"
  by (cases "terminate E key w") (auto simp: terminate_c_def dest: terminate_wf)

lemma then_do_wf:
  assumes "\<And>w. wf w \<Longrightarrow> wf (snd (f w))" "\<And>w. wf w \<Longrightarrow> wf (snd (g w))" "wf w"
  shows "wf (snd (then_do f g w))"
proof (cases "f w")
  case (Pair r w1)
  with assms(1)[OF assms(3)] have "wf w1" by simp
  with Pair assms(2) show ?thesis by (cases r) (simp_all add: then_do_def)
qed

lemma pure_do_wf: "(\<And>w. wf w \<Longrightarrow> wf (f w)) \<Longrightarrow> wf w \<Longrightarrow> wf (snd (pure_do f w))"
  by (simp add: pure_do_def)

lemma call_notify_snd: "snd (call_notify E n s w) = w"
  by (simp add: call_notify_def split: option.splits)

lemma call_status_snd: "snd (call_status E k s w) = w"
  by (simp add: call_status_def split: option.splits)

lemma prompt_kill_pids_wf: "wf w \<Longrightarrow> wf (snd (prompt_kill_pids E port pids sn w))"
  using prompt_kill_pids_frame[of E port pids sn w] by (simp add: wf_def)

lemma check_port_conflict_wf:
  assumes "wf w"
  shows "wf (snd (snd (check_port_conflict E port sn w)))"
proof -
  let ?w1 = "log (Port_in_use port sn) w"
  obtain r w2 where cn: "call_notify E (Port_in_use_notice port sn) Warning ?w1 = (r, w2)"
    by (cases "call_notify E (Port_in_use_notice port sn) Warning ?w1")
  then have w2: "w2 = ?w1" by (rule call_notify_world)
  have a: "wf ?w1" using assms by (simp add: wf_log)
  obtain b w3 where pk: "prompt_kill_pids E port (find_pids_on_port E port ?w1) sn ?w1 = (b, w3)"
    by (cases "prompt_kill_pids E port (find_pids_on_port E port ?w1) sn ?w1")
  with prompt_kill_pids_wf[OF a, of E port "find_pids_on_port E port ?w1" sn] have "wf w3" by simp
  with assms a cn w2 pk show ?thesis
    by (cases r) (simp_all add: check_port_conflict_def Let_def wf_log)
qed

lemma migrate_db_wf: "wf w \<Longrightarrow> wf (snd (migrate_db E C w))"
  by (simp add: migrate_db_def spawn_c_wf wf_log)

lemma redis_wait_wf: "wf w \<Longrightarrow> wf (redis_wait E C n w)"
  by (induction n arbitrary: w) (simp_all add: wf_log wf_sleep)

lemma ensure_redis_wf: "wf w \<Longrightarrow> wf (snd (ensure_redis E C w))"
  unfolding ensure_redis_def
  by (auto simp: wf_log intro!: then_do_wf pure_do_wf spawn_c_wf redis_wait_wf)

lemma start_daphne_wf:
  assumes "wf w" shows "wf (snd (start_daphne E C w))"
proof -
  obtain r b w1 where c: "check_port_conflict E (DAPHNE_PORT C) ''Daphne'' w = (r, b, w1)"
    by (cases "check_port_conflict E (DAPHNE_PORT C) ''Daphne'' w")
  with check_port_conflict_wf[OF assms, of E "DAPHNE_PORT C" "''Daphne''"] have "wf w1" by simp
  with c show ?thesis by (cases r) (simp_all add: start_daphne_def spawn_c_wf)
qed

lemma remove_schedule_wf: "wf w \<Longrightarrow> wf (remove_schedule E C w)"
  by (auto simp: remove_schedule_def wf_log intro: wf_frame[of _ w] split: option.splits)

lemma start_celery_beat_wf: "wf w \<Longrightarrow> wf (snd (start_celery_beat E C w))"
  by (simp add: start_celery_beat_def spawn_c_wf remove_schedule_wf)

lemma start_celery_worker_wf: "wf w \<Longrightarrow> wf (snd (start_celery_worker E C w))"
  by (simp add: start_celery_worker_def Let_def spawn_c_wf)

lemma start_frontend_wf:
  assumes "wf w" shows "wf (snd (start_frontend E C w))"
proof -
  let ?w1 = "log (Frontend_port_in_use (FRONTEND_PORT C)) w"
  have a: "wf ?w1" using assms by (simp add: wf_log)
  obtain r w2 where cn: "call_notify E (Frontend_port_notice (FRONTEND_PORT C)) Warning ?w1 = (r, w2)"
    by (cases "call_notify E (Frontend_port_notice (FRONTEND_PORT C)) Warning ?w1")
  then have w2: "w2 = ?w1" by (rule call_notify_world)
  obtain b w3 where pk: "prompt_kill_pids E (FRONTEND_PORT C) (find_pids_on_port E (FRONTEND_PORT C) ?w1) ''Frontend'' ?w1 = (b, w3)"
    by (cases "prompt_kill_pids E (FRONTEND_PORT C) (find_pids_on_port E (FRONTEND_PORT C) ?w1) ''Frontend'' ?w1")
  with prompt_kill_pids_wf[OF a, of E "FRONTEND_PORT C" "find_pids_on_port E (FRONTEND_PORT C) ?w1" "''Frontend''"]
  have "wf w3" by simp
  with assms a cn w2 pk show ?thesis
    by (cases r; cases b) (simp_all add: start_frontend_def Let_def wf_log wf_sleep spawn_c_wf)
qed

lemma restart_proc_wf: "wf w \<Longrightarrow> wf (snd (restart_proc E C key w))"
  by (simp add: restart_proc_def start_daphne_wf start_celery_beat_wf start_celery_worker_wf
        start_frontend_wf split: option.splits)

lemma run_action_wf: "wf w \<Longrightarrow> wf (snd (run_action E C a w))"
  by (cases a) (simp_all add: restart_proc_wf start_daphne_wf start_celery_beat_wf
        start_celery_worker_wf start_frontend_wf split: option.splits)

lemma fire_timer_wf:
  assumes "wf w" shows "wf (fire_timer E C w)"
proof (cases "timers w")
  case Nil
  with assms show ?thesis by (simp add: fire_timer_def)
next
  case (Cons x ts)
  obtain t a where x: "x = (t, a)" by (cases x)
  have "wf (w\<lparr>timers := ts, clock := max (clock w) t\<rparr>)" using assms by (simp add: wf_def)
  then show ?thesis using Cons x by (simp add: fire_timer_def run_action_wf)
qed

lemma schedule_wf: "wf w \<Longrightarrow> wf (schedule d a w)"
  by (simp add: schedule_def wf_def)

lemma start_backend_wf: "wf w \<Longrightarrow> wf (snd (start_backend E C w))"
  unfolding start_backend_def
  by (intro then_do_wf pure_do_wf ensure_redis_wf schedule_wf)
     (auto simp: wf_sleep intro!: then_do_wf pure_do_wf migrate_db_wf)

lemma start_all_wf: "wf w \<Longrightarrow> wf (snd (start_all E C w))"
  unfolding start_all_def
  by (intro then_do_wf pure_do_wf start_backend_wf schedule_wf)

lemma stop_keys_wf: "wf w \<Longrightarrow> wf (stop_keys E ks w)"
proof (induction ks arbitrary: w)
  case Nil then show ?case by simp
next
  case (Cons k ks)
  obtain r w1 where t: "terminate_c E k w = (r, w1)" by (cases "terminate_c E k w")
  with terminate_c_wf[OF Cons.prems, of E k] have "wf w1" by simp
  with t Cons.IH show ?case by (cases r) (simp_all add: wf_sleep wf_log)
qed

lemma stop_all_wf: "wf w \<Longrightarrow> wf (stop_all E C w)"
  by (simp add: stop_all_def Let_def wf_log wf_sleep stop_keys_wf)


lemma monitor_crashed_frame:
  assumes "monitor_crashed E key proc c w = (r, proc', w')"
  shows "os_procs w' = os_procs w" "clock w' = clock w" "signals w' = signals w"
        "monitor_key w' = monitor_key w" "monitor_alive w' = monitor_alive w"
        "procs w' = dict_set (procs w) key proc'" "p proc' = p proc" "name proc' = name proc"
        "foreign_signals w' = foreign_signals w"
proof -
  let ?proc1 = "proc\<lparr>status := FAILED, last_error := Some (Exited_with_code c)\<rparr>"
  let ?w1 = "log (Crashed (name proc)) (w\<lparr>procs := dict_set (procs w) key ?proc1\<rparr>)"
  obtain r2 w2 where cn: "call_notify E (Stopped_unexpectedly (name proc)) Error ?w1 = (r2, w2)"
    by (cases "call_notify E (Stopped_unexpectedly (name proc)) Error ?w1")
  then have w2: "w2 = ?w1" by (rule call_notify_world)
  have ds: "dict_set (dict_set d key a) key b = dict_set d key b" for a b and d :: "(string \<times> Proc) list"
    by (induction d) auto
  from assms cn w2
  show "os_procs w' = os_procs w" "clock w' = clock w" "signals w' = signals w"
        "monitor_key w' = monitor_key w" "monitor_alive w' = monitor_alive w"
        "procs w' = dict_set (procs w) key proc'" "p proc' = p proc" "name proc' = name proc"
        "foreign_signals w' = foreign_signals w"
    by (auto simp: monitor_crashed_def Let_def log_fields ds split: option.splits if_splits)
qed


text \<open>The frame of one pass of the loop body: only the entry of the key can change.\<close>

lemma monitor_check_frame:
  assumes "monitor_check E key proc w = (r, w')"
  shows "os_procs w' = os_procs w \<and> clock w' = clock w \<and> signals w' = signals w \<and>
         monitor_alive w' = monitor_alive w \<and> monitor_key w' = Some key \<and>
         foreign_signals w' = foreign_signals w \<and>
         (procs w' = procs w \<or> (\<exists>proc'. procs w' = dict_set (procs w) key proc' \<and> p proc' = p proc))"
proof -
  let ?w0 = "w\<lparr>monitor_key := Some key\<rparr>"
  have cs: "snd (call_status E key s v) = v" for s v by (rule call_status_snd)
  show ?thesis
  proof (cases "(case p proc of None \<Rightarrow> None | Some i \<Rightarrow> poll ?w0 i)")
    case None
    with assms cs[of "status proc" ?w0] show ?thesis
      by (auto simp: monitor_check_def Let_def)
  next
    case (Some c)
    show ?thesis
    proof (cases "status proc = RUNNING")
      case False
      with Some assms cs[of "status proc" ?w0] show ?thesis
        by (auto simp: monitor_check_def Let_def)
    next
      case True
      obtain r1 proc' w1 where mc: "monitor_crashed E key proc c ?w0 = (r1, proc', w1)"
        by (cases "monitor_crashed E key proc c ?w0")
      note f = monitor_crashed_frame[OF mc]
      have "w' = w1"
        using assms Some True mc cs[of "status proc'" w1]
        by (cases r1) (auto simp: monitor_check_def Let_def)
      with f show ?thesis by auto
    qed
  qed
qed




text \<open>The loop keeps the table well formed, whatever the callbacks do.\<close>

lemma monitor_loop_wf:
  assumes "wf w" "\<forall>(k, pr) \<in> set snap. \<exists>i. p pr = Some i \<and> i < length (os_procs w)"
  shows "wf (snd (monitor_loop E snap w))"
  using assms
proof (induction snap arbitrary: w)
  case Nil
  then show ?case by simp
next
  case (Cons a snap)
  obtain key proc where a: "a = (key, proc)" by (cases a)
  obtain r w1 where mc: "monitor_check E key proc w = (r, w1)" by (cases "monitor_check E key proc w")
  from Cons.prems(2) obtain i where i: "p proc = Some i" "i < length (os_procs w)" by (auto simp: a)
  note f = monitor_check_frame[OF mc]
  have wf1: "wf w1"
  proof -
    from f consider "procs w1 = procs w" | proc' where "procs w1 = dict_set (procs w) key proc'" "p proc' = p proc"
      by blast
    then show ?thesis
    proof cases
      case 1
      with f Cons.prems(1) show ?thesis by (simp add: wf_def)
    next
      case 2
      have "wf (w\<lparr>procs := procs w1, os_procs := os_procs w1\<rparr>)"
      proof (rule wf_subset[OF Cons.prems(1), where i = i and key = key and pr = proc' and n = "length (os_procs w)"])
        show "distinct (map fst (procs w1))" using Cons.prems(1) 2 by (simp add: wf_def distinct_dict_set)
        show "set (procs w1) \<subseteq> insert (key, proc') (set (procs w))" using 2 set_dict_set by simp
      qed (use i 2 f in simp_all)
      then show ?thesis by (simp add: wf_def)
    qed
  qed
  have "\<forall>(k, pr) \<in> set snap. \<exists>i. p pr = Some i \<and> i < length (os_procs w1)"
    using Cons.prems(2) f by (auto simp: a)
  from Cons.IH[OF wf1 this] mc show ?case by (cases r) (simp_all add: a wf1)
qed

lemma monitor_tick_wf:
  assumes "wf w" shows "wf (monitor_tick E w)"
proof -
  let ?w1 = "sleep 2000 w"
  have a: "wf ?w1" using assms by (simp add: wf_sleep)
  then have b: "\<forall>(k, pr) \<in> set (procs ?w1). \<exists>i. p pr = Some i \<and> i < length (os_procs ?w1)"
    by (simp add: wf_def)
  obtain r w2 where l: "monitor_loop E (procs ?w1) ?w1 = (r, w2)" by (cases "monitor_loop E (procs ?w1) ?w1")
  with monitor_loop_wf[OF a b, of E] have "wf w2" by simp
  then have "wf (w2\<lparr>monitor_alive := False\<rparr>)" by (simp add: wf_def)
  with assms l \<open>wf w2\<close> show ?thesis
    by (cases r) (auto simp: monitor_tick_def Let_def wf_def)
qed

lemma host_with_quiet: "quiet (host_with l)"
  by (simp add: quiet_def host_with_def)

lemma world0_not_live: "\<not> live_tracked world0 key"
  by (simp add: live_tracked_def world0_def)

lemma world_beat_eq:
  "world_beat =
     \<lparr>procs = [(''celery_beat'',
                 \<lparr>name = ''celery-beat'', args = [], cwd = ''/srv'', p = Some 0, status = RUNNING,
                  auto_restart = True, start_time = Some 0, restart_count = 0, last_error = None\<rparr>)],
      os_procs = [\<lparr>exit_at = None, term_delay = Some 300\<rparr>], clock = 0,
      ui_log = [Starting ''celery-beat''], signals = [], foreign_signals = [],
      timers = [], monitor_key = None, monitor_alive = True, stop_monitoring = False,
      removed_files = []\<rparr>"
  unfolding world_beat_def spawn_quiet[OF host_with_quiet world0_not_live]
  by (simp add: host_with_def steady_def launched_world_def log_def world0_def beat_proc_def
        Proc_init_def)

lemma world_beat_live: "live_tracked world_beat ''celery_beat''"
  by (simp add: world_beat_eq live_tracked_def poll_def)

lemma world_beat_wf: "wf world_beat"
  by (simp add: world_beat_eq wf_def)

lemma wf_world0: "wf world0"
  by (simp add: wf_def world0_def)

lemma reachable_wf: "reachable w \<Longrightarrow> wf w"
proof (induction rule: reachable.induct)
  case init
  show ?case by (rule wf_world0)
next
  case (do_spawn w E key proc)
  then show ?case by (cases "spawn E key proc w") (auto dest: spawn_wf)
next
  case (do_terminate w E key)
  then show ?case by (cases "terminate E key w") (auto dest: terminate_wf)
next
  case (on_close w)
  then show ?case by (simp add: wf_def)
qed (simp_all add: wf_sleep migrate_db_wf start_backend_wf start_frontend_wf start_all_wf
       stop_all_wf monitor_tick_wf fire_timer_wf)

lemma spawn_world_cases:
  assumes "spawn E key proc w = (r, proc', w')"
  shows "w' = log (Already_running (name proc)) w \<or> w' = w \<or> w' = log (Starting (name proc)) w \<or>
         (\<exists>life td. w' = launched_world key (proc\<lparr>status := STARTING\<rparr>) life td (log (Starting (name proc)) w)) \<or>
         (\<exists>m. w' = log (Not_found (name proc) m) (log (Starting (name proc)) w))"
proof (cases "live_tracked w key")
  case True
  with assms show ?thesis by (auto simp: spawn_def)
next
  case False
  obtain r1 w1 where cs: "call_status E key STARTING w = (r1, w1)" by (cases "call_status E key STARTING w")
  then have w1: "w1 = w" by (rule call_status_world)
  let ?w2 = "log (Starting (name proc)) w"
  show ?thesis
  proof (cases r1)
    case (Some x)
    with assms False cs w1 show ?thesis by (auto simp: spawn_def)
  next
    case None
    show ?thesis
    proof (cases "popen E (args proc) (cwd proc) ?w2")
      case (Launched life td)
      from spawn_launched_eq[of E key "proc\<lparr>status := STARTING\<rparr>" life td ?w2]
      obtain r2 pr2 where "spawn_launched E key (proc\<lparr>status := STARTING\<rparr>) life td ?w2 =
        (r2, pr2, launched_world key (proc\<lparr>status := STARTING\<rparr>) life td ?w2)" by auto
      with assms False cs w1 None Launched show ?thesis
        by (auto simp: spawn_def Let_def)
    next
      case (Launch_raises e)
      show ?thesis
      proof (cases e)
        case (FileNotFoundError m)
        from spawn_not_found_eq[of E key "proc\<lparr>status := STARTING\<rparr>" m ?w2]
        obtain r2 pr2 where "spawn_not_found E key (proc\<lparr>status := STARTING\<rparr>) m ?w2 =
          (r2, pr2, log (Not_found (name proc) m) ?w2)" by auto
        with assms False cs w1 None Launch_raises FileNotFoundError show ?thesis
          by (auto simp: spawn_def Let_def)
      qed (use assms False cs w1 None Launch_raises in \<open>auto simp: spawn_def Let_def\<close>)
    qed
  qed
qed

lemma spawn_frame:
  assumes "spawn E key proc w = (r, proc', w')"
  shows "timers w' = timers w" "clock w' = clock w" "signals w' = signals w"
        "foreign_signals w' = foreign_signals w" "monitor_alive w' = monitor_alive w"
        "stop_monitoring w' = stop_monitoring w"
  using spawn_world_cases[OF assms]
  by (auto simp: launched_world_def log_def)

lemma world_crashed_eq:
  "world_crashed =
     \<lparr>procs = [(''celery_beat'',
                 \<lparr>name = ''celery-beat'', args = [], cwd = ''/srv'', p = Some 0, status = RUNNING,
                  auto_restart = True, start_time = Some 0, restart_count = 0, last_error = None\<rparr>)],
      os_procs = [\<lparr>exit_at = Some (0, 0), term_delay = Some 300\<rparr>], clock = 0,
      ui_log = [Starting ''celery-beat''], signals = [], foreign_signals = [],
      timers = [], monitor_key = None, monitor_alive = True, stop_monitoring = False,
      removed_files = []\<rparr>"
  unfolding world_crashed_def spawn_quiet[OF host_with_quiet world0_not_live]
  by (simp add: host_with_def exits_at_once_def launched_world_def log_def world0_def beat_proc_def
        Proc_init_def)

lemma world_crashed_not_live: "\<not> live_tracked world_crashed key"
  by (simp add: world_crashed_eq live_tracked_def poll_def)

lemma world_failed_respawn_eq:
  "world_failed_respawn =
     world_crashed\<lparr>ui_log := [Starting ''celery-beat'', Starting ''celery-beat'',
                               Not_found ''celery-beat'' ''celery'']\<rparr>"
  unfolding world_failed_respawn_def spawn_quiet[OF host_with_quiet world_crashed_not_live]
  by (simp add: host_with_def log_def beat_proc_def Proc_init_def world_crashed_eq)

lemma reachable_world_crashed: "reachable world_crashed"
  unfolding world_crashed_def by (rule reachable.do_spawn[OF reachable.init])






lemma fresh_beatD:
  assumes "fresh_beat w"
  obtains pr where "procs w = [(''celery_beat'', pr)]" "name pr = ''celery-beat''"
    "status pr = RUNNING" "auto_restart pr" "restart_count pr = 0" "os_procs w \<noteq> []"
    "p pr = Some (length (os_procs w) - 1)" "exit_at (last (os_procs w)) = Some (clock w, 0)"
    "timers w = []" "monitor_alive w" "\<not> stop_monitoring w"
proof -
  from assms have m: "map fst (procs w) = [''celery_beat'']" by (simp add: fresh_beat_def)
  then obtain pr where pr: "procs w = [(''celery_beat'', pr)]" by (cases "procs w") auto
  with assms that[of pr] show ?thesis by (simp add: fresh_beat_def)
qed

lemma host_exits_fields:
  "popen (host_with exits_at_once) a c w = Launched (Some (0, 0)) (Some 300)"
  "status_callback (host_with exits_at_once) = None"
  "notify_callback (host_with exits_at_once) = None"
  "path_exists (host_with exits_at_once) f w = False"
  by (simp_all add: host_with_def exits_at_once_def)

lemma start_celery_beat_dead:
  assumes "\<not> live_tracked w ''celery_beat''"
  shows "start_celery_beat (host_with exits_at_once) C w =
         (None, launched_world ''celery_beat''
                  ((Proc_init ''celery-beat''
                      [CELERY_EXE C, ''-A'', ''scanner_backend.celery:app'', ''beat'', ''-l'', ''info'',
                       ''-s'', CELERY_BEAT_SCHEDULE_PATH C] (PROJECT_ROOT C) True)\<lparr>status := STARTING\<rparr>)
                  (Some (0, 0)) (Some 300) (log (Starting ''celery-beat'') w))"
proof -
  have r: "remove_schedule (host_with exits_at_once) C w = w"
    by (simp add: remove_schedule_def host_exits_fields)
  show ?thesis
    unfolding start_celery_beat_def r spawn_c_def spawn_quiet[OF host_with_quiet assms]
    by (simp add: host_exits_fields Proc_init_def Let_def)
qed

lemma fresh_beat_launched:
  assumes "procs w = [] \<or> (\<exists>pr. procs w = [(''celery_beat'', pr)])"
    and "timers w = []" "monitor_alive w" "\<not> stop_monitoring w"
  shows "fresh_beat (launched_world ''celery_beat''
                  ((Proc_init ''celery-beat'' a c True)\<lparr>status := STARTING\<rparr>)
                  (Some (0, 0)) (Some 300) (log l w))"
  using assms
  by (auto simp: fresh_beat_def launched_world_def log_def Proc_init_def)

lemma fresh_beat_start:
  "fresh_beat (snd (start_celery_beat (host_with exits_at_once) C world0))"
  unfolding start_celery_beat_dead[OF world0_not_live]
  by (simp add: fresh_beat_launched world0_def)

lemma length_launched_world:
  "length (os_procs (launched_world key proc life td w)) = Suc (length (os_procs w))"
  by (simp add: launched_world_def)

text \<open>The monitor tick of the crash scenario.\<close>

lemma fresh_beat_tick:
  assumes "fresh_beat w"
  shows "\<exists>pr. monitor_tick (host_with exits_at_once) w =
           w\<lparr>clock := clock w + 2000, monitor_key := Some ''celery_beat'',
             procs := [(''celery_beat'', pr)],
             ui_log := ui_log w @ [Crashed ''celery-beat'', Auto_restarting ''celery-beat'' 1],
             timers := [(clock w + 4000, Restart_loop_key)]\<rparr> \<and>
           status pr = FAILED \<and> restart_count pr = 1 \<and> p pr = Some (length (os_procs w) - 1)"
proof -
  let ?E = "host_with exits_at_once"
  from assms obtain pr where pr: "procs w = [(''celery_beat'', pr)]" "name pr = ''celery-beat''"
    "status pr = RUNNING" "auto_restart pr" "restart_count pr = 0" "os_procs w \<noteq> []"
    "p pr = Some (length (os_procs w) - 1)" "exit_at (last (os_procs w)) = Some (clock w, 0)"
    and rest: "timers w = []" "monitor_alive w" "\<not> stop_monitoring w"
    by (rule fresh_beatD)
  let ?w1 = "sleep 2000 w"
  let ?w0 = "?w1\<lparr>monitor_key := Some ''celery_beat''\<rparr>"
  have po: "poll ?w0 (length (os_procs w) - 1) = Some 0"
    using pr(6,8) by (simp add: poll_def sleep_def last_conv_nth)
  let ?pr2 = "pr\<lparr>status := FAILED, last_error := Some (Exited_with_code 0), restart_count := 1\<rparr>"
  have mcr: "monitor_crashed ?E ''celery_beat'' pr 0 ?w0 =
        (None, ?pr2,
         w\<lparr>clock := clock w + 2000, monitor_key := Some ''celery_beat'',
           procs := [(''celery_beat'', ?pr2)],
           ui_log := ui_log w @ [Crashed ''celery-beat'', Auto_restarting ''celery-beat'' 1],
           timers := [(clock w + 4000, Restart_loop_key)]\<rparr>)"
    using pr rest
    by (simp add: monitor_crashed_def Let_def call_notify_def host_exits_fields log_def sleep_def)
  have mc: "monitor_check ?E ''celery_beat'' pr ?w1 =
        (None, w\<lparr>clock := clock w + 2000, monitor_key := Some ''celery_beat'',
           procs := [(''celery_beat'', ?pr2)],
           ui_log := ui_log w @ [Crashed ''celery-beat'', Auto_restarting ''celery-beat'' 1],
           timers := [(clock w + 4000, Restart_loop_key)]\<rparr>)"
    unfolding monitor_check_def Let_def
    using pr(3,7) po by (simp add: mcr call_status_def host_exits_fields)
  have "monitor_tick ?E w = w\<lparr>clock := clock w + 2000, monitor_key := Some ''celery_beat'',
           procs := [(''celery_beat'', ?pr2)],
           ui_log := ui_log w @ [Crashed ''celery-beat'', Auto_restarting ''celery-beat'' 1],
           timers := [(clock w + 4000, Restart_loop_key)]\<rparr>"
    using rest pr(1) by (simp add: monitor_tick_def Let_def sleep_fields mc)
  with pr(7) show ?thesis by (intro exI[of _ ?pr2]) simp
qed

text \<open>One round of the crash scenario launches one more process and leaves a fresh handle.\<close>

lemma fresh_beat_cycle:
  assumes "fresh_beat w"
  shows "fresh_beat (crash_cycle (host_with exits_at_once) C w) \<and>
         length (os_procs (crash_cycle (host_with exits_at_once) C w)) = Suc (length (os_procs w))"
proof -
  let ?E = "host_with exits_at_once"
  from assms have rest: "monitor_alive w" "\<not> stop_monitoring w" "os_procs w \<noteq> []"
    and ex: "exit_at (last (os_procs w)) = Some (clock w, 0)"
    by (simp_all add: fresh_beat_def)
  from fresh_beat_tick[OF assms] obtain pr where
    t: "monitor_tick ?E w =
           w\<lparr>clock := clock w + 2000, monitor_key := Some ''celery_beat'',
             procs := [(''celery_beat'', pr)],
             ui_log := ui_log w @ [Crashed ''celery-beat'', Auto_restarting ''celery-beat'' 1],
             timers := [(clock w + 4000, Restart_loop_key)]\<rparr>"
    and pr: "p pr = Some (length (os_procs w) - 1)" by blast
  let ?w2 = "w\<lparr>clock := clock w + 2000, monitor_key := Some ''celery_beat'',
             procs := [(''celery_beat'', pr)],
             ui_log := ui_log w @ [Crashed ''celery-beat'', Auto_restarting ''celery-beat'' 1],
             timers := [(clock w + 4000, Restart_loop_key)]\<rparr>\<lparr>timers := [], clock := clock w + 4000\<rparr>"
  have nl: "\<not> live_tracked ?w2 ''celery_beat''"
    using pr rest(3) ex by (simp add: live_tracked_def poll_def last_conv_nth)
  have f: "fire_timer ?E C (monitor_tick ?E w) = snd (start_celery_beat ?E C ?w2)"
    unfolding t by (simp add: fire_timer_def restart_proc_def max_def)
  have a: "procs ?w2 = [] \<or> (\<exists>pr. procs ?w2 = [(''celery_beat'', pr)])" by simp
  have "fresh_beat (snd (start_celery_beat ?E C ?w2))"
    unfolding start_celery_beat_dead[OF nl] snd_conv
    by (rule fresh_beat_launched[OF a]) (use rest in simp_all)
  moreover have "length (os_procs (snd (start_celery_beat ?E C ?w2))) = Suc (length (os_procs w))"
    unfolding start_celery_beat_dead[OF nl] by (simp add: length_launched_world log_fields)
  ultimately show ?thesis by (simp add: crash_cycle_def f)
qed

lemma full_host_quiet: "quiet full_host"
  by (simp add: quiet_def full_host_def host_with_def)

lemma full_host_fields:
  "popen full_host a c w = Launched None (Some 300)"
  "status_callback full_host = None" "notify_callback full_host = None"
  "tcp_connect full_host h po w = False"
  "path_exists full_host f w = (f = ''/usr/bin/docker'')"
  "remove_raises full_host f w = None"
  by (simp_all add: full_host_def host_with_def steady_def)

lemma redis_wait_closed:
  assumes "\<And>w. \<not> tcp_open E (REDIS_HOST C) (REDIS_PORT C) w"
  shows "redis_wait E C n w = log Redis_unreachable (sleep (250 * n) w)"
proof (induction n arbitrary: w)
  case 0
  show ?case by (simp add: sleep_def)
next
  case (Suc n)
  have "sleep (250 * n) (sleep 250 w) = sleep (250 * Suc n) w" by (simp add: sleep_def)
  with Suc assms show ?case by simp
qed

lemma spawn_c_full:
  assumes "\<not> live_tracked w key"
  shows "spawn_c full_host key proc w =
           (None, launched_world key (proc\<lparr>status := STARTING\<rparr>) None (Some 300) (log (Starting (name proc)) w))"
  unfolding spawn_c_def spawn_quiet[OF full_host_quiet assms]
  by (simp add: full_host_fields Let_def)

lemma live_tracked_untracked: "map_of (procs w) key = None \<Longrightarrow> \<not> live_tracked w key"
  by (simp add: live_tracked_def)

lemma start_all_full:
  "\<exists>w. start_all full_host demo_cfg world0 = (None, w) \<and>
     keys_pids w = [(''redis_docker'', Some 0), (''migrate'', Some 1)] \<and>
     os_procs w = replicate 2 \<lparr>exit_at = None, term_delay = Some 300\<rparr> \<and>
     map snd (timers w) = [Start_daphne, Start_celery_beat, Start_celery_worker, Start_frontend] \<and>
     signals w = []"
  by (simp add: start_all_def start_backend_def then_do_def pure_do_def ensure_redis_def
        migrate_db_def tcp_open_def full_host_fields demo_cfg_def redis_wait_closed
        spawn_c_full live_tracked_untracked log_fields sleep_fields schedule_def
        launched_world_def world0_def keys_pids_def Proc_init_def log_def sleep_def
        numeral_2_eq_2)















section \<open>Properties\<close>

text \<open>
  C5. \<^verbatim>\<open>_spawn\<close> is idempotent per key: when the handle tracked under the key holds a
  running OS process, another call returns without raising, leaves the handle it was
  given and the whole state as they were (so the same single process stays live under
  the key, and no process is launched), and appends exactly one "already running" line to
  the log.
\<close>

theorem spawn_idempotent:
  assumes "live_tracked w key" and "spawn E key proc w = (r, proc', w')"
  shows "r = None \<and> proc' = proc \<and>
         w' = w\<lparr>ui_log := ui_log w @ [Already_running (name proc)]\<rparr> \<and>
         live_pids w' = live_pids w \<and> live_tracked w' key"
proof -
  from assms have eq: "r = None" "proc' = proc" "w' = log (Already_running (name proc)) w"
    by (auto simp: spawn_def)
  have "live_pids w' = live_pids w"
    by (simp add: live_pids_def eq poll_log log_fields)
  moreover have "live_tracked w' key"
    using assms(1) by (simp add: eq live_tracked_cong[of "log (Already_running (name proc)) w" w] log_fields)
  ultimately show ?thesis using eq by (simp add: log_def)
qed

theorem spawn_idempotent_witness:
  "live_tracked world_beat ''celery_beat'' \<and>
   spawn (host_with steady) ''celery_beat'' beat_proc world_beat =
     (None, beat_proc, world_beat\<lparr>ui_log := [Starting ''celery-beat'', Already_running ''celery-beat'']\<rparr>) \<and>
   live_pids (snd (snd (spawn (host_with steady) ''celery_beat'' beat_proc world_beat))) = [0]"
proof -
  obtain r proc' w' where s: "spawn (host_with steady) ''celery_beat'' beat_proc world_beat = (r, proc', w')"
    by (cases "spawn (host_with steady) ''celery_beat'' beat_proc world_beat")
  from spawn_idempotent[OF world_beat_live s]
  have "r = None" "proc' = beat_proc"
    "w' = world_beat\<lparr>ui_log := ui_log world_beat @ [Already_running (name beat_proc)]\<rparr>"
    "live_pids w' = live_pids world_beat" by auto
  moreover have "live_pids world_beat = [0]"
    by (simp add: live_pids_def world_beat_eq poll_def)
  moreover have "ui_log world_beat = [Starting ''celery-beat'']" "name beat_proc = ''celery-beat''"
    by (simp_all add: world_beat_eq beat_proc_def Proc_init_def)
  ultimately show ?thesis using s world_beat_live by simp
qed

text \<open>
  C6. For a key that is tracked in a well-formed table, once \<^verbatim>\<open>_terminate\<close> has returned
  the key is absent from the table, and the handle it worked on is the tracked one with
  its state set to \<open>STOPPED\<close>.
\<close>

theorem terminate_post:
  assumes "wf w" and "map_of (procs w) key = Some proc" and "terminate E key w = (None, h, w')"
  shows "map_of (procs w') key = None \<and> key \<notin> fst ` set (procs w') \<and>
         h = Some (proc\<lparr>status := STOPPED\<rparr>) \<and> map_option status h = Some STOPPED"
proof -
  from terminate_post_lemma[OF assms]
  have a: "map_of (procs w') key = None" and b: "h = Some (proc\<lparr>status := STOPPED\<rparr>)" by simp_all
  from a have "key \<notin> fst ` set (procs w')" by (simp add: map_of_eq_None_iff)
  with a b show ?thesis by simp
qed

theorem terminate_post_witness:
  "wf world_beat \<and> map_of (procs world_beat) ''celery_beat'' \<noteq> None \<and>
   fst (terminate (host_with steady) ''celery_beat'' world_beat) = None \<and>
   procs (snd (snd (terminate (host_with steady) ''celery_beat'' world_beat))) = [] \<and>
   map_option status (fst (snd (terminate (host_with steady) ''celery_beat'' world_beat))) = Some STOPPED"
proof -
  let ?E = "host_with steady"
  obtain r h w' where t: "terminate ?E ''celery_beat'' world_beat = (r, h, w')"
    by (cases "terminate ?E ''celery_beat'' world_beat")
  obtain proc where pr: "map_of (procs world_beat) ''celery_beat'' = Some proc"
    by (simp add: world_beat_eq)
  from wf_tracked[OF world_beat_wf pr] obtain i where i: "p proc = Some i" by blast
  have r: "r = None"
    using t unfolding terminate_tracked[OF pr i]
    by (auto simp: call_status_quiet[OF host_with_quiet])
  from terminate_post[OF world_beat_wf pr t[unfolded r]]
  have post: "key \<notin> fst ` set (procs w')" "map_option status h = Some STOPPED" if "key = ''celery_beat''" for key
    using that by simp_all
  have "set (procs w') \<subseteq> set (procs world_beat)"
    using t unfolding terminate_tracked[OF pr i]
    by (auto simp: call_status_quiet[OF host_with_quiet] stop_process_fields world_beat_eq
          split: if_splits)
  with post(1)[OF refl] have "procs w' = []"
    by (cases "procs w'") (auto simp: world_beat_eq)
  with post(2)[OF refl] r t pr world_beat_wf show ?thesis by simp
qed







text \<open>
  C8. \<^verbatim>\<open>_prompt_kill_pids\<close> sends a stop or kill signal to a conflicting process only
  when a Tk root exists and the dialog answered yes. Without a root, or with any other
  answer (no, or a dialog that raised), it returns \<open>False\<close>, sends no signal to any
  process, and changes nothing except that, without a root, the conflict message is
  logged.
\<close>

theorem no_kill_without_consent:
  assumes "prompt_kill_pids E port pids service_name w = (res, w')"
  shows "(foreign_signals w' \<noteq> foreign_signals w \<longrightarrow> tk_root E w \<and> askyesno E w = Some True) \<and>
         (\<not> tk_root E w \<or> askyesno E w \<noteq> Some True \<longrightarrow>
            \<not> res \<and> foreign_signals w' = foreign_signals w \<and> signals w' = signals w \<and>
            (w' = w \<or> w' = log (Port_prompt port service_name pids) w))"
proof (cases "pids = []")
  case True
  with assms show ?thesis by (simp add: prompt_kill_pids_def)
next
  case False
  obtain a w1 where pa: "prompt_answer E port pids service_name w = (a, w1)"
    by (cases "prompt_answer E port pids service_name w")
  show ?thesis
  proof (cases a)
    case True
    with pa have "tk_root E w \<and> askyesno E w = Some True" by (simp add: prompt_answer_True)
    then show ?thesis by simp
  next
    case no: False
    with pa assms False have w': "w' = w1" "\<not> res" by (simp_all add: prompt_kill_pids_def)
    from pa no have "prompt_answer E port pids service_name w = (False, w1)" by simp
    from prompt_answer_False[OF this] w' show ?thesis
      by (auto simp: log_fields)
  qed
qed

theorem no_kill_without_consent_witness:
  "tk_root consent_host world0 \<and> askyesno consent_host world0 = Some True \<and>
   foreign_signals (snd (prompt_kill_pids consent_host 5178 [(4242, ''node'', ''vite'')] ''Frontend'' world0))
     \<noteq> foreign_signals world0 \<and>
   \<not> tk_root (host_with steady) world0 \<and>
   prompt_kill_pids (host_with steady) 5178 [(4242, ''node'', ''vite'')] ''Frontend'' world0 =
     (False, log (Port_prompt 5178 ''Frontend'' [(4242, ''node'', ''vite'')]) world0)"
proof -
  let ?pids = "[(4242::nat, ''node'', ''vite'')]"
  obtain r1 w1 where a: "prompt_kill_pids consent_host 5178 ?pids ''Frontend'' world0 = (r1, w1)"
    by (cases "prompt_kill_pids consent_host 5178 ?pids ''Frontend'' world0")
  obtain r2 w2 where b: "prompt_kill_pids (host_with steady) 5178 ?pids ''Frontend'' world0 = (r2, w2)"
    by (cases "prompt_kill_pids (host_with steady) 5178 ?pids ''Frontend'' world0")
  have sent: "foreign_signals w1 \<noteq> foreign_signals world0"
    using a by (auto simp: prompt_kill_pids_def prompt_answer_def consent_host_def host_with_def
        kill_one_def send_foreign_def log_def world0_def)
  from no_kill_without_consent[OF a] sent
  have c: "tk_root consent_host world0 \<and> askyesno consent_host world0 = Some True" by blast
  have nr: "\<not> tk_root (host_with steady) world0" by (simp add: host_with_def)
  from no_kill_without_consent[OF b] nr
  have d: "\<not> r2" "w2 = world0 \<or> w2 = log (Port_prompt 5178 ''Frontend'' ?pids) world0" by blast+
  have "w2 \<noteq> world0"
    using b by (auto simp: prompt_kill_pids_def prompt_answer_def host_with_def log_def world0_def)
  with d a b c sent nr show ?thesis by simp
qed

text \<open>
  C9, as amended. \<^verbatim>\<open>_http_ok\<close> reports a target as reachable exactly when the URL
  has the form the function parses, a response is obtained, and its status code is at
  least 200 and under 500.
\<close>

theorem http_ok_iff:
  "http_ok py_int get_status url \<longleftrightarrow>
     (\<exists>host port path n st. url_parts url = Some (host, port, path) \<and> py_int port = Some n \<and>
        get_status host n path = Some st \<and> 200 \<le> st \<and> st < 500)"
  by (auto simp: http_ok_def split: option.splits)

theorem http_ok_iff_witness:
  "http_ok port_int (\<lambda>host n path. Some 404) ''http://127.0.0.1:5178'' \<and>
   http_ok port_int (\<lambda>host n path. Some 302) ''http://127.0.0.1:5178'' \<and>
   \<not> http_ok port_int (\<lambda>host n path. None) ''http://127.0.0.1:5178'' \<and>
   \<not> http_ok port_int (\<lambda>host n path. Some 200) ''http://localhost/''"
proof -
  have "url_parts ''http://localhost/'' = None" by (simp add: url_parts_def)
  then show ?thesis
    unfolding http_ok_iff by (simp add: url_parts_frontend port_int_def)
qed

text \<open>
  C9 as stated fails for a response whose status is under 200: it is obtained, its status
  is under 500, and the target is reported as not reachable.
\<close>

theorem http_ok_rejects_informational:
  "url_parts ''http://127.0.0.1:5178'' = Some (''127.0.0.1'', ''5178'', ''/'') \<and>
   port_int ''5178'' = Some 5178 \<and> (101 :: int) < 500 \<and>
   \<not> http_ok port_int (\<lambda>host n path. Some 101) ''http://127.0.0.1:5178''"
  by (simp add: http_ok_def url_parts_frontend port_int_def)

text \<open>
  C10, as amended. In every reachable state each handle stored in the table refers to an
  OS process. A \<^verbatim>\<open>_spawn\<close> whose launch raises leaves the table, the OS processes and
  the timers as they were; the handle it was given (a fresh one, without a process
  reference) is not in the table, so the monitor loop does not meet it; and if the key was
  not tracked before the call, \<^verbatim>\<open>_terminate\<close> on that key changes nothing.
\<close>

theorem failed_launch_not_tracked:
  assumes "reachable w" and "p proc = None"
    and "popen E (args proc) (cwd proc) (log (Starting (name proc)) w) = Launch_raises e"
    and "spawn E key proc w = (r, proc', w')"
  shows "(\<forall>(k, pr) \<in> set (procs w). p pr \<noteq> None) \<and>
         procs w' = procs w \<and> os_procs w' = os_procs w \<and> timers w' = timers w \<and>
         p proc' = None \<and> (\<forall>k. (k, proc') \<notin> set (procs w')) \<and>
         (map_of (procs w) key = None \<longrightarrow> terminate E' key w' = (None, None, w'))"
proof -
  from reachable_wf[OF assms(1)] have wf: "wf w" .
  then have inv: "\<forall>(k, pr) \<in> set (procs w). p pr \<noteq> None" unfolding wf_def by fastforce
  from spawn_table[OF assms(4)] assms(3)
  have same: "procs w' = procs w" "os_procs w' = os_procs w" by auto
  have pp: "p proc' = None"
  proof (cases "live_tracked w key")
    case True
    with assms(2,4) show ?thesis by (auto simp: spawn_def)
  next
    case False
    obtain r1 w1 where cs: "call_status E key STARTING w = (r1, w1)" by (cases "call_status E key STARTING w")
    then have w1: "w1 = w" by (rule call_status_world)
    show ?thesis
    proof (cases r1)
      case (Some x)
      with assms(2,4) False cs show ?thesis by (auto simp: spawn_def)
    next
      case None
      show ?thesis
      proof (cases e)
        case (FileNotFoundError m)
        from spawn_not_found_eq[of E key "proc\<lparr>status := STARTING\<rparr>" m "log (Starting (name proc)) w"]
        obtain r2 where "spawn_not_found E key (proc\<lparr>status := STARTING\<rparr>) m (log (Starting (name proc)) w) =
          (r2, proc\<lparr>status := STARTING, status := FAILED, last_error := Some (Launch_error m)\<rparr>,
           log (Not_found (name proc) m) (log (Starting (name proc)) w))" by auto
        with assms(2,3,4) False cs w1 None FileNotFoundError show ?thesis
          by (auto simp: spawn_def Let_def)
      qed (use assms(2,3,4) False cs w1 None in \<open>auto simp: spawn_def Let_def\<close>)
    qed
  qed
  from inv same pp have nt: "\<forall>k. (k, proc') \<notin> set (procs w')" by auto
  have "terminate E' key w' = (None, None, w')" if "map_of (procs w) key = None"
    using that same by (simp add: terminate_untracked)
  with inv same pp nt spawn_frame(1)[OF assms(4)] show ?thesis by simp
qed

theorem failed_launch_not_tracked_witness:
  "reachable world0 \<and> p beat_proc = None \<and> map_of (procs world0) ''celery_beat'' = None \<and>
   procs (snd (snd (spawn (host_with (Launch_raises (FileNotFoundError ''celery''))) ''celery_beat'' beat_proc world0))) = [] \<and>
   terminate (host_with steady) ''celery_beat''
     (snd (snd (spawn (host_with (Launch_raises (FileNotFoundError ''celery''))) ''celery_beat'' beat_proc world0)))
   = (None, None, snd (snd (spawn (host_with (Launch_raises (FileNotFoundError ''celery''))) ''celery_beat'' beat_proc world0)))"
proof -
  let ?E = "host_with (Launch_raises (FileNotFoundError ''celery''))"
  obtain r proc' w' where s: "spawn ?E ''celery_beat'' beat_proc world0 = (r, proc', w')"
    by (cases "spawn ?E ''celery_beat'' beat_proc world0")
  have a: "p beat_proc = None" by (simp add: beat_proc_def Proc_init_def)
  have b: "popen ?E (args beat_proc) (cwd beat_proc) (log (Starting (name beat_proc)) world0)
            = Launch_raises (FileNotFoundError ''celery'')" by (simp add: host_with_def)
  have c: "map_of (procs world0) ''celery_beat'' = None" "procs world0 = []" by (simp_all add: world0_def)
  from failed_launch_not_tracked[OF reachable.init a b s, of "host_with steady"] c
  have "procs w' = []" "terminate (host_with steady) ''celery_beat'' w' = (None, None, w')" by simp_all
  with s a c reachable.init show ?thesis by simp
qed

text \<open>
  C10 as stated fails when an earlier handle is still tracked under the key: after a
  service has exited and a new launch for its key has failed, \<^verbatim>\<open>_terminate\<close> on
  the key is not a no-op, it stops and removes the earlier handle.
\<close>

theorem terminate_after_failed_respawn:
  "reachable world_crashed \<and>
   procs world_failed_respawn = procs world_crashed \<and>
   map (\<lambda>(k, pr). (k, status pr)) (procs world_failed_respawn) = [(''celery_beat'', RUNNING)] \<and>
   procs (snd (snd (terminate (host_with steady) ''celery_beat'' world_failed_respawn))) = [] \<and>
   map_option status (fst (snd (terminate (host_with steady) ''celery_beat'' world_failed_respawn))) = Some STOPPED"
proof -
  have "terminate (host_with steady) ''celery_beat'' world_failed_respawn =
        (None, Some (snd (hd (procs world_crashed))\<lparr>status := STOPPED\<rparr>), world_failed_respawn\<lparr>procs := []\<rparr>)"
    by (simp add: terminate_def world_failed_respawn_eq world_crashed_eq poll_def Let_def
          call_status_def host_with_def)
  then show ?thesis
    using reachable_world_crashed by (simp add: world_failed_respawn_eq world_crashed_eq)
qed




text \<open>
  C1 does not hold of the code. Celery-beat is started by the operator on a host where
  every launch succeeds and the program exits at once. Each round (a monitor tick, then
  the restart timer) launches the program again and leaves a fresh handle with restart
  count 0, because \<^verbatim>\<open>_restart_proc\<close> calls \<^verbatim>\<open>start_celery_beat\<close>, which builds a new
  \<^verbatim>\<open>Proc\<close> that replaces the tracked one. After \<open>n\<close> rounds \<open>n + 1\<close> processes have been
  launched, for every \<open>n\<close>: the automatic restarts are not bounded by 3.
\<close>

theorem auto_restart_not_bounded:
  "fresh_beat ((crash_cycle (host_with exits_at_once) C ^^ n)
                 (snd (start_celery_beat (host_with exits_at_once) C world0))) \<and>
   length (os_procs ((crash_cycle (host_with exits_at_once) C ^^ n)
                       (snd (start_celery_beat (host_with exits_at_once) C world0)))) = Suc n"
proof (induction n)
  case 0
  have "length (os_procs (snd (start_celery_beat (host_with exits_at_once) C world0))) = Suc 0"
    unfolding start_celery_beat_dead[OF world0_not_live]
    by (simp add: length_launched_world log_fields world0_def)
  with fresh_beat_start show ?case by simp
next
  case (Suc n)
  then show ?case using fresh_beat_cycle by simp
qed




end
